theory Spec2Isabelle
  imports Complex_Main "HOL-Library.AList"
begin

section \<open>Data model\<close>

text \<open>
  The ingestion pipeline (\<^verbatim>\<open>ingestion/config.py\<close>, \<^verbatim>\<open>ingestion/utils.py\<close>,
  \<^verbatim>\<open>ingestion/ingest.py\<close>) and the warehouse query tool (\<^verbatim>\<open>app/bigquery_tool.py\<close>)
  drive third-party services: HTTP, pandas, Cloud Storage and BigQuery. Each such primitive
  is a field of an environment record that gives the outcome of the call (a value or a raised
  exception); the functions of the repository are translated around them statement by
  statement. The local file system and the sequence of logging calls are the state.
\<close>

type_synonym path = string

text \<open>
  Python exceptions: the class and \<^verbatim>\<open>str(e)\<close>. \<^verbatim>\<open>KeyboardInterrupt\<close> and
  \<^verbatim>\<open>SystemExit\<close> derive from \<^verbatim>\<open>BaseException\<close> only: a handler
  \<^verbatim>\<open>except Exception\<close> does not take them. Every other class below derives from
  \<^verbatim>\<open>Exception\<close>.
\<close>

datatype exn_class =
    RequestException | IOError | FileNotFoundError | ParserError | GoogleCloudError
  | NotFound | Conflict | ValueError | ZeroDivisionError | OtherException
  | KeyboardInterrupt | SystemExit

datatype exn = Exn (cls: exn_class) (str: string)

text \<open>\<^verbatim>\<open>isinstance(e, Exception)\<close>: what \<^verbatim>\<open>except Exception\<close> tests.\<close>

definition is_Exception :: "exn \<Rightarrow> bool" where
  "is_Exception e = (cls e \<noteq> KeyboardInterrupt \<and> cls e \<noteq> SystemExit)"

record config =
  project_id :: string
  bucket_name :: string
  bronze_dataset :: string
  silver_dataset :: string
  region :: string
  credentials_path :: path
  base_url :: string
  raw_data_folder :: path
  parquet_data_folder :: path
  log_level :: string
  log_file :: path

text \<open>\<^verbatim>\<open>Config.tables\<close>: a literal of the class, not read from the process environment.\<close>

definition Config_tables :: "string list" where
  "Config_tables =
     [''name.basics'', ''title.akas'', ''title.basics'', ''title.crew'',
      ''title.episode'', ''title.principals'', ''title.ratings'']"

text \<open>A pandas data frame, as far as the code reads it: the columns and the rows.\<close>

record dataframe =
  columns :: "string list"
  rows :: "string option list list"

text \<open>
  An HTTP response of \<^verbatim>\<open>requests.get(url, stream=True)\<close>: what
  \<^verbatim>\<open>raise_for_status\<close> raises, the \<^verbatim>\<open>content-length\<close> header (taken as numeric when
  present), the chunks that \<^verbatim>\<open>iter_content\<close> yields, and the exception that ends the
  iteration when the connection breaks after those chunks.
\<close>

record response =
  status_error :: "exn option"
  content_length :: "nat option"
  body :: "string list"
  body_error :: "exn option"

record env =
  http_get :: "string \<Rightarrow> exn + response"
  open_wb :: "path \<Rightarrow> exn option"
  read_csv :: "string \<Rightarrow> exn + dataframe"
  to_parquet :: "dataframe \<Rightarrow> string \<Rightarrow> exn + string"
  from_service_account_file :: "path \<Rightarrow> exn option"
  upload_from_filename :: "string \<Rightarrow> string \<Rightarrow> string \<Rightarrow> exn option"
  get_dataset :: "string \<Rightarrow> exn option"
  create_dataset :: "string \<Rightarrow> string \<Rightarrow> exn option"
  load_table_from_uri :: "string \<Rightarrow> string \<Rightarrow> string \<Rightarrow> exn + string"
  job_result :: "string \<Rightarrow> exn option"
  get_table :: "string \<Rightarrow> exn + nat"

datatype level = INFO | WARNING | ERROR

text \<open>
  One constructor for each logging call of the modelled functions, with the values its
  f-string formats, grouped by the function that logs. The log of the state is the sequence
  of logging calls made, before any filtering by level.
\<close>

datatype table_msg =
    ProcessingTable string
  | SkippingDownload path
  | SkippingConversion path
  | SkippingLoad
  | SuccessfullyProcessed string
  | FailedToProcess string exn

datatype run_msg =
    Project string
  | Bucket string
  | Dataset string
  | TablesToProcess nat
  | ForceDownload bool
  | SkipBigQuery bool
  | Tables "string list"
  | Starting nat nat string
  | StoppingFailFast
  | Successful nat nat
  | Failed nat nat
  | Item string
  | CleaningUpLocalFiles
  | AllTablesProcessed
  | CompletedWithFailures
  | FailedCompletely
  | ConfigurationError exn
  | DryRunMode

datatype fetch_msg =
    Downloading string path
  | Progress rat nat
  | DownloadComplete path
  | DownloadFailed exn

datatype transform_msg =
    Converting path path
  | ReadRows nat nat
  | ConversionComplete path rat
  | ConversionFailed exn

datatype publish_msg =
    Uploading path string string
  | UploadComplete string
  | UploadFailed exn

datatype load_msg =
    Loading string string string
  | DatasetExists string
  | CreatingDataset string
  | DatasetCreated string
  | DatasetCheckFailed exn
  | JobStarted string
  | LoadComplete nat string
  | LoadFailed exn

datatype cleanup_msg =
    CleaningUp
  | Deleted path
  | CleanupComplete

datatype msg =
    Text string
  | Table table_msg
  | Run run_msg
  | Fetch fetch_msg
  | Transform transform_msg
  | Publish publish_msg
  | Load load_msg
  | Cleanup cleanup_msg

record world =
  files :: "(path \<times> string) list"
  log :: "(level \<times> msg) list"
  debug :: bool

definition logger :: "level \<Rightarrow> msg \<Rightarrow> world \<Rightarrow> world" where
  "logger l m w = w\<lparr>log := log w @ [(l, m)]\<rparr>"

definition exists :: "world \<Rightarrow> path \<Rightarrow> bool" where
  "exists w p = (map_of (files w) p \<noteq> None)"

definition st_size :: "world \<Rightarrow> path \<Rightarrow> nat" where
  "st_size w p = (case map_of (files w) p of None \<Rightarrow> 0 | Some c \<Rightarrow> length c)"

definition startswith :: "string \<Rightarrow> string \<Rightarrow> bool" where
  "startswith s p = (take (length p) s = p)"

definition endswith :: "string \<Rightarrow> string \<Rightarrow> bool" where
  "endswith s p = (length p \<le> length s \<and> drop (length s - length p) s = p)"

definition join :: "string \<Rightarrow> string list \<Rightarrow> string" where
  "join sep xs = (case xs of [] \<Rightarrow> [] | y # ys \<Rightarrow> y @ concat (map (\<lambda>z. sep @ z) ys))"

text \<open>
  \<^verbatim>\<open>folder / name\<close> of pathlib: an absolute right operand replaces the left one.
\<close>

definition path_join :: "path \<Rightarrow> string \<Rightarrow> path" where
  "path_join folder name =
     (if startswith name ''/'' then name else folder @ ''/'' @ name)"

definition sep70 :: msg where
  "sep70 = Text (replicate 70 (CHR ''=''))"

section \<open>Configuration (\<^verbatim>\<open>ingestion/config.py\<close>)\<close>

definition validate :: "config \<Rightarrow> world \<Rightarrow> exn + unit" where
  "validate cfg w =
     (let required_vars = [(''GCP_PROJECT_ID'', project_id cfg),
                           (''GCS_BUCKET_NAME'', bucket_name cfg)];
          missing_vars = map fst (filter (\<lambda>(var, v). v = [] \<or> startswith v ''your-'')
                                          required_vars)
      in if missing_vars \<noteq> [] then
           Inl (Exn ValueError
                 (''Missing required environment variables: '' @ join '', '' missing_vars))
         else if \<not> exists w (credentials_path cfg) then
           Inl (Exn FileNotFoundError
                 (''Credentials file not found: '' @ credentials_path cfg))
         else Inr ())"

definition get_table_filename :: "string \<Rightarrow> string" where
  "get_table_filename table = table @ ''.tsv.gz''"

definition get_table_id :: "string \<Rightarrow> string" where
  "get_table_id table = map (\<lambda>c. if c = CHR ''.'' then CHR ''_'' else c) table"

definition get_gcs_path :: "string \<Rightarrow> string" where
  "get_gcs_path table =
     (let table_id = get_table_id table
      in ''imdb/'' @ table_id @ ''/'' @ table_id @ ''.parquet'')"

section \<open>Stages (\<^verbatim>\<open>ingestion/utils.py\<close>)\<close>

subsection \<open>\<^verbatim>\<open>download_file\<close>\<close>

text \<open>
  The body of \<^verbatim>\<open>with open(destination, "wb")\<close>: every non-empty chunk is appended to the
  file and counted; a progress line is logged when the count passes a multiple of 10 MiB.
\<close>

fun write_chunks :: "nat \<Rightarrow> nat \<Rightarrow> path \<Rightarrow> string list \<Rightarrow> nat \<Rightarrow> world \<Rightarrow> world" where
  "write_chunks chunk_size total_size destination [] downloaded_size w = w"
| "write_chunks chunk_size total_size destination (chunk # rest) downloaded_size w =
     (if chunk \<noteq> [] then
        (let old = (case map_of (files w) destination of None \<Rightarrow> [] | Some c \<Rightarrow> c);
             w1 = w\<lparr>files := AList.update destination (old @ chunk) (files w)\<rparr>;
             d = downloaded_size + length chunk;
             w2 = (if d mod (10 * 1024 * 1024) < chunk_size then
                     logger INFO
                       (Fetch (Progress (if total_size \<noteq> 0
                                         then rat_of_nat d / rat_of_nat total_size * 100
                                         else 0)
                                        (d div 1024 div 1024))) w1
                   else w1)
         in write_chunks chunk_size total_size destination rest d w2)
      else write_chunks chunk_size total_size destination rest downloaded_size w)"

text \<open>
  The handler \<^verbatim>\<open>except requests.RequestException\<close>: it logs and re-raises; an exception
  of another class passes through it unlogged.
\<close>

definition download_failed :: "exn \<Rightarrow> world \<Rightarrow> (exn + unit) \<times> world" where
  "download_failed e w =
     (if cls e = RequestException then (Inl e, logger ERROR (Fetch (DownloadFailed e)) w)
      else (Inl e, w))"

text \<open>
  \<^verbatim>\<open>open(destination, "wb")\<close> creates the file, or truncates it, before the first chunk
  arrives; there is no temporary path and nothing removes the file when the iteration
  raises.
\<close>

definition download_file :: "env \<Rightarrow> string \<Rightarrow> path \<Rightarrow> nat \<Rightarrow> world \<Rightarrow> (exn + unit) \<times> world" where
  "download_file ev url destination chunk_size w =
     (let w0 = logger INFO (Fetch (Downloading url destination)) w
      in case http_get ev url of
           Inl e \<Rightarrow> download_failed e w0
         | Inr r \<Rightarrow>
            (case status_error r of
               Some e \<Rightarrow> download_failed e w0
             | None \<Rightarrow>
                (let total_size = (case content_length r of None \<Rightarrow> 0 | Some n \<Rightarrow> n)
                 in case open_wb ev destination of
                      Some e \<Rightarrow> download_failed e w0
                    | None \<Rightarrow>
                       (let w1 = w0\<lparr>files := AList.update destination [] (files w0)\<rparr>;
                            w2 = write_chunks chunk_size total_size destination (body r) 0 w1
                        in case body_error r of
                             Some e \<Rightarrow> download_failed e w2
                           | None \<Rightarrow> (Inr (), logger INFO (Fetch (DownloadComplete destination)) w2)))))"

subsection \<open>\<^verbatim>\<open>convert_to_parquet\<close>\<close>

text \<open>
  The three statements of the \<^verbatim>\<open>try\<close> block. The function is declared
  \<^verbatim>\<open>-> None\<close>: the row count, the column count and the size reduction go to the log. The
  size reduction is \<^verbatim>\<open>(1 - parquet_size / original_size) * 100\<close>, a percentage; the
  float is idealised as a rational, and a raw file of size 0 raises
  \<^verbatim>\<open>ZeroDivisionError\<close>. A failing \<^verbatim>\<open>to_parquet\<close> is taken to write no file.
\<close>

definition convert_body :: "env \<Rightarrow> path \<Rightarrow> path \<Rightarrow> string \<Rightarrow> world \<Rightarrow> (exn + unit) \<times> world" where
  "convert_body ev tsv_path parquet_path compression w =
     (case map_of (files w) tsv_path of
        None \<Rightarrow> (Inl (Exn FileNotFoundError tsv_path), w)
      | Some content \<Rightarrow>
         (case read_csv ev content of
            Inl e \<Rightarrow> (Inl e, w)
          | Inr df \<Rightarrow>
             (let w1 = logger INFO (Transform (ReadRows (length (rows df)) (length (columns df)))) w
              in case to_parquet ev df compression of
                   Inl e \<Rightarrow> (Inl e, w1)
                 | Inr out \<Rightarrow>
                    (let w2 = w1\<lparr>files := AList.update parquet_path out (files w1)\<rparr>;
                         original_size = st_size w2 tsv_path;
                         parquet_size = st_size w2 parquet_path
                     in if original_size = 0 then
                          (Inl (Exn ZeroDivisionError ''division by zero''), w2)
                        else
                          (let compression_ratio =
                                 (1 - rat_of_nat parquet_size / rat_of_nat original_size) * 100
                           in (Inr (),
                               logger INFO (Transform (ConversionComplete parquet_path compression_ratio))
                                 w2))))))"

definition convert_to_parquet :: "env \<Rightarrow> path \<Rightarrow> path \<Rightarrow> string \<Rightarrow> world \<Rightarrow> (exn + unit) \<times> world" where
  "convert_to_parquet ev tsv_path parquet_path compression w =
     (case convert_body ev tsv_path parquet_path compression
             (logger INFO (Transform (Converting tsv_path parquet_path)) w) of
        (Inl e, w') \<Rightarrow>
          (if is_Exception e then (Inl e, logger ERROR (Transform (ConversionFailed e)) w')
           else (Inl e, w'))
      | (Inr u, w') \<Rightarrow> (Inr u, w'))"

subsection \<open>\<^verbatim>\<open>upload_to_gcs\<close>\<close>

definition get_gcs_client :: "env \<Rightarrow> config \<Rightarrow> exn + unit" where
  "get_gcs_client ev cfg =
     (case from_service_account_file ev (credentials_path cfg) of
        Some e \<Rightarrow> Inl e | None \<Rightarrow> Inr ())"

definition upload_body :: "env \<Rightarrow> config \<Rightarrow> path \<Rightarrow> string \<Rightarrow> string \<Rightarrow> world \<Rightarrow> (exn + string) \<times> world" where
  "upload_body ev cfg local_path gcs_path bucket w =
     (case get_gcs_client ev cfg of
        Inl e \<Rightarrow> (Inl e, w)
      | Inr _ \<Rightarrow>
         (case map_of (files w) local_path of
            None \<Rightarrow> (Inl (Exn FileNotFoundError local_path), w)
          | Some content \<Rightarrow>
             (case upload_from_filename ev bucket gcs_path content of
                Some e \<Rightarrow> (Inl e, w)
              | None \<Rightarrow>
                 (let gcs_uri = ''gs://'' @ bucket @ ''/'' @ gcs_path
                  in (Inr gcs_uri, logger INFO (Publish (UploadComplete gcs_uri)) w)))))"

definition upload_to_gcs :: "env \<Rightarrow> config \<Rightarrow> path \<Rightarrow> string \<Rightarrow> string option \<Rightarrow> world \<Rightarrow> (exn + string) \<times> world" where
  "upload_to_gcs ev cfg local_path gcs_path bucket_name_arg w =
     (let bucket = (case bucket_name_arg of
                      None \<Rightarrow> bucket_name cfg
                    | Some b \<Rightarrow> if b = [] then bucket_name cfg else b)
      in case upload_body ev cfg local_path gcs_path bucket
                (logger INFO (Publish (Uploading local_path bucket gcs_path)) w) of
           (Inl e, w') \<Rightarrow>
             (if is_Exception e then (Inl e, logger ERROR (Publish (UploadFailed e)) w')
              else (Inl e, w'))
         | (Inr uri, w') \<Rightarrow> (Inr uri, w'))"

subsection \<open>\<^verbatim>\<open>ensure_dataset_exists\<close> and \<^verbatim>\<open>load_to_bigquery\<close>\<close>

definition get_bigquery_client :: "env \<Rightarrow> config \<Rightarrow> exn + unit" where
  "get_bigquery_client ev cfg =
     (case from_service_account_file ev (credentials_path cfg) of
        Some e \<Rightarrow> Inl e | None \<Rightarrow> Inr ())"

text \<open>
  \<^verbatim>\<open>get_bigquery_client\<close> is called before the \<^verbatim>\<open>try\<close>. The call of
  \<^verbatim>\<open>create_dataset\<close> stands inside the handler \<^verbatim>\<open>except NotFound\<close>: what it raises is
  not offered to the sibling clause \<^verbatim>\<open>except Exception\<close> and leaves the function as it
  is. \<^verbatim>\<open>create_dataset\<close> is called without \<^verbatim>\<open>exists_ok\<close>.
\<close>

definition ensure_dataset_exists :: "env \<Rightarrow> config \<Rightarrow> string \<Rightarrow> string \<Rightarrow> world \<Rightarrow> (exn + unit) \<times> world" where
  "ensure_dataset_exists ev cfg dataset_id location w =
     (case get_bigquery_client ev cfg of
        Inl e \<Rightarrow> (Inl e, w)
      | Inr _ \<Rightarrow>
         (let dataset_ref = project_id cfg @ ''.'' @ dataset_id
          in case get_dataset ev dataset_ref of
               None \<Rightarrow> (Inr (), logger INFO (Load (DatasetExists dataset_ref)) w)
             | Some e \<Rightarrow>
                (if cls e = NotFound then
                   (let w1 = logger INFO (Load (CreatingDataset dataset_ref)) w
                    in case create_dataset ev dataset_ref location of
                         Some e' \<Rightarrow> (Inl e', w1)
                       | None \<Rightarrow> (Inr (), logger INFO (Load (DatasetCreated dataset_ref)) w1))
                 else if is_Exception e then
                   (Inl e, logger ERROR (Load (DatasetCheckFailed e)) w)
                 else (Inl e, w))))"

definition load_body :: "env \<Rightarrow> config \<Rightarrow> string \<Rightarrow> string \<Rightarrow> string \<Rightarrow> string \<Rightarrow> world \<Rightarrow> (exn + unit) \<times> world" where
  "load_body ev cfg gcs_uri dataset_id table_id write_disposition w =
     (case get_bigquery_client ev cfg of
        Inl e \<Rightarrow> (Inl e, w)
      | Inr _ \<Rightarrow>
         (let table_ref = project_id cfg @ ''.'' @ dataset_id @ ''.'' @ table_id
          in case ensure_dataset_exists ev cfg dataset_id ''EU'' w of
               (Inl e, w1) \<Rightarrow> (Inl e, w1)
             | (Inr _, w1) \<Rightarrow>
                (case load_table_from_uri ev gcs_uri table_ref write_disposition of
                   Inl e \<Rightarrow> (Inl e, w1)
                 | Inr job_id \<Rightarrow>
                    (let w2 = logger INFO (Load (JobStarted job_id)) w1
                     in case job_result ev job_id of
                          Some e \<Rightarrow> (Inl e, w2)
                        | None \<Rightarrow>
                           (case get_table ev table_ref of
                              Inl e \<Rightarrow> (Inl e, w2)
                            | Inr num_rows \<Rightarrow>
                               (Inr (), logger INFO (Load (LoadComplete num_rows table_ref)) w2))))))"

definition load_to_bigquery :: "env \<Rightarrow> config \<Rightarrow> string \<Rightarrow> string \<Rightarrow> string \<Rightarrow> string \<Rightarrow> world \<Rightarrow> (exn + unit) \<times> world" where
  "load_to_bigquery ev cfg gcs_uri dataset_id table_id write_disposition w =
     (case load_body ev cfg gcs_uri dataset_id table_id write_disposition
             (logger INFO (Load (Loading gcs_uri dataset_id table_id)) w) of
        (Inl e, w') \<Rightarrow>
          (if is_Exception e then (Inl e, logger ERROR (Load (LoadFailed e)) w')
           else (Inl e, w'))
      | (Inr u, w') \<Rightarrow> (Inr u, w'))"

subsection \<open>\<^verbatim>\<open>cleanup_local_files\<close>\<close>

text \<open>
  \<^verbatim>\<open>folder.glob(pattern)\<close> with a pattern \<^verbatim>\<open>*suffix\<close>: the files directly in the
  folder whose name ends with the suffix.
\<close>

definition glob :: "world \<Rightarrow> path \<Rightarrow> string \<Rightarrow> path list" where
  "glob w folder suffix =
     filter (\<lambda>p. startswith p (folder @ ''/'')
                 \<and> CHR ''/'' \<notin> set (drop (length folder + 1) p)
                 \<and> endswith (drop (length folder + 1) p) suffix)
            (map fst (files w))"

definition unlink :: "path \<Rightarrow> world \<Rightarrow> world" where
  "unlink p w = logger INFO (Cleanup (Deleted p)) (w\<lparr>files := AList.delete p (files w)\<rparr>)"

definition cleanup_local_files :: "config \<Rightarrow> bool \<Rightarrow> world \<Rightarrow> world" where
  "cleanup_local_files cfg keep_parquet w =
     (let w0 = logger INFO (Cleanup CleaningUp) w;
          w1 = fold unlink (glob w0 (raw_data_folder cfg) ''.tsv.gz'') w0;
          w2 = (if \<not> keep_parquet
                then fold unlink (glob w1 (parquet_data_folder cfg) ''.parquet'') w1
                else w1)
      in logger INFO (Cleanup CleanupComplete) w2)"

section \<open>Orchestrator (\<^verbatim>\<open>ingestion/ingest.py\<close>)\<close>

subsection \<open>\<^verbatim>\<open>process_table\<close>\<close>

text \<open>
  The \<^verbatim>\<open>try\<close> block, one definition for each of its four steps. An exception raised by
  a step ends the block: the later steps are not reached.
\<close>

definition fetch_step :: "env \<Rightarrow> config \<Rightarrow> string \<Rightarrow> bool \<Rightarrow> world \<Rightarrow> (exn + unit) \<times> world" where
  "fetch_step ev cfg table force_download w =
     (let filename = get_table_filename table;
          raw_path = path_join (raw_data_folder cfg) filename;
          download_url = base_url cfg @ filename
      in if force_download \<or> \<not> exists w raw_path then
           download_file ev download_url raw_path 8192 w
         else (Inr (), logger INFO (Table (SkippingDownload raw_path)) w))"

definition transform_step :: "env \<Rightarrow> config \<Rightarrow> string \<Rightarrow> bool \<Rightarrow> world \<Rightarrow> (exn + unit) \<times> world" where
  "transform_step ev cfg table force_download w =
     (let raw_path = path_join (raw_data_folder cfg) (get_table_filename table);
          table_id = get_table_id table;
          parquet_path = path_join (parquet_data_folder cfg) (table_id @ ''.parquet'')
      in if force_download \<or> \<not> exists w parquet_path then
           convert_to_parquet ev raw_path parquet_path ''snappy'' w
         else (Inr (), logger INFO (Table (SkippingConversion parquet_path)) w))"

definition publish_step :: "env \<Rightarrow> config \<Rightarrow> string \<Rightarrow> world \<Rightarrow> (exn + string) \<times> world" where
  "publish_step ev cfg table w =
     (let table_id = get_table_id table;
          parquet_path = path_join (parquet_data_folder cfg) (table_id @ ''.parquet'');
          gcs_path = get_gcs_path table
      in upload_to_gcs ev cfg parquet_path gcs_path None w)"

definition load_step :: "env \<Rightarrow> config \<Rightarrow> string \<Rightarrow> bool \<Rightarrow> string \<Rightarrow> world \<Rightarrow> (exn + unit) \<times> world" where
  "load_step ev cfg table skip_bigquery gcs_uri w =
     (if \<not> skip_bigquery then
        load_to_bigquery ev cfg gcs_uri (bronze_dataset cfg) (get_table_id table)
          ''WRITE_TRUNCATE'' w
      else (Inr (), logger INFO (Table SkippingLoad) w))"

definition process_body :: "env \<Rightarrow> config \<Rightarrow> string \<Rightarrow> bool \<Rightarrow> bool \<Rightarrow> world \<Rightarrow> (exn + unit) \<times> world" where
  "process_body ev cfg table force_download skip_bigquery w =
     (case fetch_step ev cfg table force_download w of
        (Inl e, w1) \<Rightarrow> (Inl e, w1)
      | (Inr _, w1) \<Rightarrow>
         (case transform_step ev cfg table force_download w1 of
            (Inl e, w2) \<Rightarrow> (Inl e, w2)
          | (Inr _, w2) \<Rightarrow>
             (case publish_step ev cfg table w2 of
                (Inl e, w3) \<Rightarrow> (Inl e, w3)
              | (Inr gcs_uri, w3) \<Rightarrow>
                 (case load_step ev cfg table skip_bigquery gcs_uri w3 of
                    (Inl e, w4) \<Rightarrow> (Inl e, w4)
                  | (Inr _, w4) \<Rightarrow>
                     (Inr (), logger INFO (Table (SuccessfullyProcessed table)) w4)))))"

text \<open>
  \<^verbatim>\<open>except Exception\<close> takes every exception of the block that derives from
  \<^verbatim>\<open>Exception\<close>, logs it and returns \<^verbatim>\<open>False\<close>; any other exception leaves
  \<^verbatim>\<open>process_table\<close> (\<open>Inl\<close>).
\<close>

definition process_table :: "env \<Rightarrow> config \<Rightarrow> string \<Rightarrow> bool \<Rightarrow> bool \<Rightarrow> world \<Rightarrow> (exn + bool) \<times> world" where
  "process_table ev cfg table force_download skip_bigquery w =
     (let w0 = logger INFO sep70
                 (logger INFO (Table (ProcessingTable table)) (logger INFO sep70 w))
      in case process_body ev cfg table force_download skip_bigquery w0 of
           (Inl e, w') \<Rightarrow>
             (if is_Exception e then
                (Inr False, logger ERROR (Table (FailedToProcess table e)) w')
              else (Inl e, w'))
         | (Inr _, w') \<Rightarrow> (Inr True, w'))"

subsection \<open>\<^verbatim>\<open>run_pipeline\<close>\<close>

text \<open>
  The loop \<^verbatim>\<open>for i, table in enumerate(tables, 1)\<close>. \<^verbatim>\<open>results\<close> is a dictionary:
  an association list in insertion order, where storing under a key that is present replaces
  the value in place. The services may answer differently from one table to the next, so
  iteration \<open>i\<close> runs in the environment \<open>evs i\<close>. An exception that leaves
  \<^verbatim>\<open>process_table\<close> leaves the loop and \<^verbatim>\<open>run_pipeline\<close>: nothing catches it.
\<close>

fun run_loop :: "(nat \<Rightarrow> env) \<Rightarrow> config \<Rightarrow> bool \<Rightarrow> bool \<Rightarrow> bool \<Rightarrow> nat \<Rightarrow> nat \<Rightarrow> string list
                   \<Rightarrow> (string \<times> bool) list \<Rightarrow> world
                   \<Rightarrow> (exn + (string \<times> bool) list) \<times> world" where
  "run_loop evs cfg force_download skip_bigquery fail_fast i n [] results w =
     (Inr results, w)"
| "run_loop evs cfg force_download skip_bigquery fail_fast i n (table # rest) results w =
     (let w0 = logger INFO (Run (Starting i n table)) w
      in case process_table (evs i) cfg table force_download skip_bigquery w0 of
           (Inl e, w1) \<Rightarrow> (Inl e, w1)
         | (Inr success, w1) \<Rightarrow>
            (let results1 = AList.update table success results
             in if \<not> success \<and> fail_fast then
                  (Inr results1, logger ERROR (Run StoppingFailFast) w1)
                else run_loop evs cfg force_download skip_bigquery fail_fast (Suc i) n rest
                       results1 w1))"

text \<open>\<^verbatim>\<open>tables = tables or Config.tables\<close>: \<^verbatim>\<open>None\<close> and the empty list are both falsy.\<close>

definition tables_or_default :: "string list option \<Rightarrow> string list" where
  "tables_or_default tables =
     (case tables of
        None \<Rightarrow> Config_tables
      | Some ts \<Rightarrow> if ts = [] then Config_tables else ts)"

definition run_banner :: "config \<Rightarrow> nat \<Rightarrow> bool \<Rightarrow> world \<Rightarrow> world" where
  "run_banner cfg n force_download w =
     fold (logger INFO)
       [sep70, Text ''IMDB Data Ingestion Pipeline'', sep70,
        Run (Project (project_id cfg)), Run (Bucket (bucket_name cfg)),
        Run (Dataset (bronze_dataset cfg)), Run (TablesToProcess n),
        Run (ForceDownload force_download), sep70] w"

text \<open>The state of \<^verbatim>\<open>run_pipeline\<close> when its loop has ended: the Run Result and the world.\<close>

definition run_results :: "(nat \<Rightarrow> env) \<Rightarrow> config \<Rightarrow> string list option \<Rightarrow> bool \<Rightarrow> bool \<Rightarrow> bool
                             \<Rightarrow> world \<Rightarrow> (exn + (string \<times> bool) list) \<times> world" where
  "run_results evs cfg tables force_download skip_bigquery fail_fast w =
     (let ts = tables_or_default tables
      in run_loop evs cfg force_download skip_bigquery fail_fast 1 (length ts) ts []
           (run_banner cfg (length ts) force_download w))"

definition run_summary :: "(string \<times> bool) list \<Rightarrow> world \<Rightarrow> world" where
  "run_summary results w =
     (let w0 = fold (logger INFO) [sep70, Text ''Pipeline Summary'', sep70] w;
          successful = map fst (filter snd results);
          failed = map fst (filter (\<lambda>(t, success). \<not> success) results);
          w1 = fold (\<lambda>t. logger INFO (Run (Item t))) successful
                 (logger INFO (Run (Successful (length successful) (length results))) w0)
      in if failed \<noteq> [] then
           fold (\<lambda>t. logger ERROR (Run (Item t))) failed
             (logger ERROR (Run (Failed (length failed) (length results))) w1)
         else w1)"

definition run_pipeline :: "(nat \<Rightarrow> env) \<Rightarrow> config \<Rightarrow> string list option \<Rightarrow> bool \<Rightarrow> bool \<Rightarrow> bool
                              \<Rightarrow> bool \<Rightarrow> world \<Rightarrow> (exn + int) \<times> world" where
  "run_pipeline evs cfg tables force_download skip_bigquery fail_fast cleanup w =
     (case run_results evs cfg tables force_download skip_bigquery fail_fast w of
        (Inl e, w1) \<Rightarrow> (Inl e, w1)
      | (Inr results, w1) \<Rightarrow>
         (let successful = map fst (filter snd results);
              failed = map fst (filter (\<lambda>(t, success). \<not> success) results);
              w2 = run_summary results w1;
              w3 = (if cleanup \<and> failed = [] then
                      cleanup_local_files cfg True
                        (logger INFO (Run CleaningUpLocalFiles) w2)
                    else w2)
          in if failed = [] then (Inr 0, logger INFO (Run AllTablesProcessed) w3)
             else if successful \<noteq> [] then
               (Inr 1, logger WARNING (Run CompletedWithFailures) w3)
             else (Inr 2, logger ERROR (Run FailedCompletely) w3)))"

subsection \<open>\<^verbatim>\<open>main\<close>\<close>

text \<open>
  The value is the status given to \<^verbatim>\<open>sys.exit\<close>, or the exception that leaves
  \<^verbatim>\<open>run_pipeline\<close>. \<^verbatim>\<open>Config.validate\<close> raises \<^verbatim>\<open>ValueError\<close> or
  \<^verbatim>\<open>FileNotFoundError\<close> only, the two classes that \<^verbatim>\<open>main\<close> catches. Importing the
  modules is not part of \<^verbatim>\<open>main\<close>.
\<close>

definition main :: "(nat \<Rightarrow> env) \<Rightarrow> config \<Rightarrow> bool \<Rightarrow> bool \<Rightarrow> string list \<Rightarrow> bool \<Rightarrow> bool \<Rightarrow> bool
                      \<Rightarrow> bool \<Rightarrow> world \<Rightarrow> (exn + int) \<times> world" where
  "main evs cfg force_download skip_bigquery tables fail_fast cleanup dry_run verbose w =
     (let w0 = (if verbose then w\<lparr>debug := True\<rparr> else w)
      in case validate cfg w0 of
           Inl e \<Rightarrow> (Inr 2, logger ERROR (Run (ConfigurationError e)) w0)
         | Inr _ \<Rightarrow>
            (if dry_run then
               (Inr 0, fold (logger INFO)
                     [Run DryRunMode, Text ''Configuration:'',
                      Run (Project (project_id cfg)), Run (Bucket (bucket_name cfg)),
                      Run (Dataset (bronze_dataset cfg)),
                      Run (Tables (if tables \<noteq> [] then tables else Config_tables)),
                      Run (ForceDownload force_download),
                      Run (SkipBigQuery skip_bigquery)] w0)
             else run_pipeline evs cfg (if tables \<noteq> [] then Some tables else None)
                    force_download skip_bigquery fail_fast cleanup w0))"

section \<open>Warehouse query tool (\<^verbatim>\<open>app/bigquery_tool.py\<close>)\<close>

text \<open>
  A query job: what \<^verbatim>\<open>query_job.result()\<close> gives (an exception, or a row iterator whose
  \<^verbatim>\<open>to_dataframe()\<close> gives an exception or a data frame) and the attribute
  \<^verbatim>\<open>total_bytes_processed\<close>.
\<close>

record query_job =
  result :: "exn + (exn + dataframe)"
  total_bytes_processed :: "nat option"

record app_env =
  app_credentials :: "path \<Rightarrow> exn option"
  client_query :: "string \<Rightarrow> exn + query_job"

datatype pyval = PyNone | PyBool bool | PyInt int | PyStr string | PyFrame dataframe

type_synonym pydict = "(string \<times> pyval) list"

definition query_failure :: "exn \<Rightarrow> pydict" where
  "query_failure e =
     [(''success'', PyBool False), (''data'', PyNone), (''error'', PyStr (str e)),
      (''rows_returned'', PyInt 0), (''bytes_processed'', PyInt 0)]"

text \<open>The \<^verbatim>\<open>try\<close> block: the first call that raises ends it.\<close>

definition execute_body :: "app_env \<Rightarrow> path \<Rightarrow> string \<Rightarrow> exn + pydict" where
  "execute_body aev CREDENTIALS_PATH sql_query =
     (case app_credentials aev CREDENTIALS_PATH of
        Some e \<Rightarrow> Inl e
      | None \<Rightarrow>
         (case client_query aev sql_query of
            Inl e \<Rightarrow> Inl e
          | Inr query_job \<Rightarrow>
             (case result query_job of
                Inl e \<Rightarrow> Inl e
              | Inr results \<Rightarrow>
                 (case results of
                    Inl e \<Rightarrow> Inl e
                  | Inr df \<Rightarrow>
                     Inr [(''success'', PyBool True), (''data'', PyFrame df),
                          (''error'', PyNone),
                          (''rows_returned'', PyInt (int (length (rows df)))),
                          (''bytes_processed'',
                             (case total_bytes_processed query_job of
                                None \<Rightarrow> PyNone | Some n \<Rightarrow> PyInt (int n)))]))))"

text \<open>
  \<^verbatim>\<open>except Exception as e\<close> returns the failure dictionary; an exception that does
  not derive from \<^verbatim>\<open>Exception\<close> leaves \<^verbatim>\<open>execute_sql\<close> (\<open>Inl\<close>).
\<close>

definition execute_sql :: "app_env \<Rightarrow> path \<Rightarrow> string \<Rightarrow> exn + pydict" where
  "execute_sql aev CREDENTIALS_PATH sql_query =
     (case execute_body aev CREDENTIALS_PATH sql_query of
        Inl e \<Rightarrow> if is_Exception e then Inr (query_failure e) else Inl e
      | Inr d \<Rightarrow> Inr d)"

section \<open>Observations on a run\<close>

text \<open>
  What a call added to the log, and the paths of the local files. Every stage function
  begins with a logging call of its own (\<^verbatim>\<open>Downloading\<close>, \<^verbatim>\<open>Converting\<close>,
  \<^verbatim>\<open>Uploading\<close>, \<^verbatim>\<open>Loading\<close>), and \<^verbatim>\<open>process_table\<close> begins with
  \<^verbatim>\<open>Processing table\<close> and ends with its verdict: the log tells which calls were made.
\<close>

definition new_log :: "world \<Rightarrow> world \<Rightarrow> (level \<times> msg) list" where
  "new_log w w' = drop (length (log w)) (log w')"

definition paths :: "world \<Rightarrow> path list" where
  "paths w = map fst (files w)"

text \<open>
  \<open>grows P w w'\<close>: the log of \<open>w'\<close> is the log of \<open>w\<close> followed by messages that satisfy
  \<open>P\<close>, and no file of \<open>w\<close> is missing in \<open>w'\<close>.
\<close>

definition grows :: "(level \<times> msg \<Rightarrow> bool) \<Rightarrow> world \<Rightarrow> world \<Rightarrow> bool" where
  "grows P w w' =
     (take (length (log w)) (log w') = log w \<and> list_all P (new_log w w')
      \<and> set (paths w) \<subseteq> set (paths w'))"

fun is_fetch_msg :: "level \<times> msg \<Rightarrow> bool" where
  "is_fetch_msg (l, Fetch m) = True"
| "is_fetch_msg _ = False"

fun is_transform_msg :: "level \<times> msg \<Rightarrow> bool" where
  "is_transform_msg (l, Transform m) = True"
| "is_transform_msg _ = False"

fun is_publish_msg :: "level \<times> msg \<Rightarrow> bool" where
  "is_publish_msg (l, Publish m) = True"
| "is_publish_msg _ = False"

fun is_load_msg :: "level \<times> msg \<Rightarrow> bool" where
  "is_load_msg (l, Load m) = True"
| "is_load_msg _ = False"

fun is_cleanup_msg :: "level \<times> msg \<Rightarrow> bool" where
  "is_cleanup_msg (l, Cleanup m) = True"
| "is_cleanup_msg _ = False"

text \<open>The messages of a table's processing between its header and its verdict.\<close>

fun is_stage_msg :: "level \<times> msg \<Rightarrow> bool" where
  "is_stage_msg (l, Fetch m) = True"
| "is_stage_msg (l, Transform m) = True"
| "is_stage_msg (l, Publish m) = True"
| "is_stage_msg (l, Load m) = True"
| "is_stage_msg (l, Table (SkippingDownload p)) = True"
| "is_stage_msg (l, Table (SkippingConversion p)) = True"
| "is_stage_msg (l, Table SkippingLoad) = True"
| "is_stage_msg _ = False"

text \<open>The first logging call of each stage function: the call was made.\<close>

fun is_fetch_call :: "level \<times> msg \<Rightarrow> bool" where
  "is_fetch_call (l, Fetch (Downloading url destination)) = True"
| "is_fetch_call _ = False"




definition table_header :: "string \<Rightarrow> (level \<times> msg) list" where
  "table_header t = [(INFO, sep70), (INFO, Table (ProcessingTable t)), (INFO, sep70)]"

text \<open>
  The invocations of \<^verbatim>\<open>process_table\<close> that a log records: the tables it was started
  for, and the tables with the verdict it ended with.
\<close>

fun started :: "level \<times> msg \<Rightarrow> string option" where
  "started (l, Table (ProcessingTable t)) = Some t"
| "started _ = None"

fun outcome :: "level \<times> msg \<Rightarrow> (string \<times> bool) option" where
  "outcome (l, Table (SuccessfullyProcessed t)) = Some (t, True)"
| "outcome (l, Table (FailedToProcess t e)) = Some (t, False)"
| "outcome _ = None"

definition invoked :: "(level \<times> msg) list \<Rightarrow> string list" where
  "invoked xs = List.map_filter started xs"

definition outcomes :: "(level \<times> msg) list \<Rightarrow> (string \<times> bool) list" where
  "outcomes xs = List.map_filter outcome xs"

text \<open>A dictionary filled by \<^verbatim>\<open>results[table] = success\<close>, one assignment after another.\<close>

definition assign_all :: "(string \<times> bool) list \<Rightarrow> (string \<times> bool) list \<Rightarrow> (string \<times> bool) list" where
  "assign_all kvs results = fold (\<lambda>(t, b). AList.update t b) kvs results"

text \<open>
  The loop: what it logs, and the dictionary it returns when no exception leaves it.
\<close>

definition loop_post :: "bool \<Rightarrow> string list \<Rightarrow> (string \<times> bool) list \<Rightarrow> (level \<times> msg) list
                           \<Rightarrow> (exn + (string \<times> bool) list) \<Rightarrow> bool" where
  "loop_post ff ts rs xs r =
     (case r of
        Inl e \<Rightarrow> \<not> is_Exception e
      | Inr rs' \<Rightarrow>
          rs' = assign_all (outcomes xs) rs \<and> map fst (outcomes xs) = invoked xs
          \<and> (invoked xs = ts
               \<or> ff \<and> (\<exists>k < length ts. invoked xs = take (Suc k) ts
                                     \<and> outcomes xs \<noteq> [] \<and> \<not> snd (last (outcomes xs)))))"

text \<open>
  What \<^verbatim>\<open>Config.validate\<close> rejects: a required setting that is empty or still the
  placeholder of the template, or a credentials file that is not there.
\<close>

definition config_error :: "config \<Rightarrow> world \<Rightarrow> bool" where
  "config_error cfg w =
     (project_id cfg = [] \<or> startswith (project_id cfg) ''your-''
      \<or> bucket_name cfg = [] \<or> startswith (bucket_name cfg) ''your-''
      \<or> map_of (files w) (credentials_path cfg) = None)"

text \<open>
  What \<^verbatim>\<open>process_table\<close> makes of an exception \<open>e\<close> raised by a stage that left the
  world \<open>w\<close>: when \<open>e\<close> derives from \<^verbatim>\<open>Exception\<close> the handler logs it and the table
  fails (\<^verbatim>\<open>False\<close>); otherwise \<open>e\<close> leaves \<^verbatim>\<open>process_table\<close>.
\<close>

definition verdict :: "string \<Rightarrow> exn \<Rightarrow> world \<Rightarrow> (exn + bool) \<times> world" where
  "verdict table e w =
     (if is_Exception e then (Inr False, logger ERROR (Table (FailedToProcess table e)) w)
      else (Inl e, w))"

text \<open>
  What the claims say of the dictionary that \<^verbatim>\<open>execute_sql\<close> returns: the success
  dictionary for a data frame, the failure dictionary for an exception, and the result of a
  call of \<^verbatim>\<open>execute_sql\<close> in which an exception \<open>e\<close> was raised (the failure
  dictionary when \<open>e\<close> derives from \<^verbatim>\<open>Exception\<close>, and \<open>e\<close> itself leaving the
  function otherwise).
\<close>

definition success_dict :: "pydict \<Rightarrow> dataframe \<Rightarrow> bool" where
  "success_dict d df =
     (map_of d ''success'' = Some (PyBool True) \<and> map_of d ''data'' = Some (PyFrame df)
      \<and> map_of d ''error'' = Some PyNone
      \<and> map_of d ''rows_returned'' = Some (PyInt (int (length (rows df)))))"

definition failure_dict :: "pydict \<Rightarrow> exn \<Rightarrow> bool" where
  "failure_dict d e =
     (map_of d ''success'' = Some (PyBool False) \<and> map_of d ''data'' = Some PyNone
      \<and> map_of d ''error'' = Some (PyStr (str e))
      \<and> map_of d ''rows_returned'' = Some (PyInt 0))"

definition success_of :: "dataframe \<Rightarrow> exn + pydict \<Rightarrow> bool" where
  "success_of df r = (case r of Inr d \<Rightarrow> success_dict d df | Inl e \<Rightarrow> False)"

definition failure_of :: "exn \<Rightarrow> exn + pydict \<Rightarrow> bool" where
  "failure_of e r =
     (case r of
        Inr d \<Rightarrow> is_Exception e \<and> failure_dict d e
      | Inl e' \<Rightarrow> \<not> is_Exception e \<and> e' = e)"

section \<open>Sample environments\<close>

definition frame0 :: dataframe where
  "frame0 = \<lparr>columns = [''title''], rows = [[Some ''Heat''], [None]]\<rparr>"

text \<open>The query succeeds with two rows.\<close>

definition aev_ok :: app_env where
  "aev_ok =
     \<lparr>app_credentials = (\<lambda>p. None),
      client_query = (\<lambda>q. Inr \<lparr>result = Inr (Inr frame0),
                                total_bytes_processed = Some 10\<rparr>)\<rparr>"

text \<open>One environment for each call of the \<^verbatim>\<open>try\<close> block that can raise.\<close>

definition aev_no_credentials :: app_env where
  "aev_no_credentials =
     aev_ok\<lparr>app_credentials := (\<lambda>p. Some (Exn FileNotFoundError ''credentials.json''))\<rparr>"

definition aev_denied :: app_env where
  "aev_denied =
     aev_ok\<lparr>client_query := (\<lambda>q. Inl (Exn OtherException ''403 Access Denied''))\<rparr>"

definition aev_job_fails :: app_env where
  "aev_job_fails =
     aev_ok\<lparr>client_query :=
              (\<lambda>q. Inr \<lparr>result = Inl (Exn GoogleCloudError ''400 Syntax error''),
                         total_bytes_processed = None\<rparr>)\<rparr>"

definition aev_frame_fails :: app_env where
  "aev_frame_fails =
     aev_ok\<lparr>client_query :=
              (\<lambda>q. Inr \<lparr>result = Inr (Inl (Exn ValueError ''no pandas'')),
                         total_bytes_processed = Some 10\<rparr>)\<rparr>"

text \<open>The user interrupts the process while the query is submitted.\<close>

definition aev_interrupted :: app_env where
  "aev_interrupted =
     aev_ok\<lparr>client_query := (\<lambda>q. Inl (Exn KeyboardInterrupt ''Ctrl-C''))\<rparr>"

definition cfg0 :: config where
  "cfg0 =
     \<lparr>project_id = ''ensai-2026'', bucket_name = ''imdb-data'', bronze_dataset = ''bronze'',
      silver_dataset = ''silver'', region = ''EU'', credentials_path = ''credentials.json'',
      base_url = ''https://datasets.imdbws.com/'', raw_data_folder = ''data/raw'',
      parquet_data_folder = ''data/parquet'', log_level = ''INFO'',
      log_file = ''logs/ingestion.log''\<rparr>"

definition df0 :: dataframe where
  "df0 = \<lparr>columns = [''tconst'', ''rating''],
          rows = [[Some ''tt1'', Some ''9''], [Some ''tt2'', None]]\<rparr>"

text \<open>Every service answers.\<close>

definition env_ok :: env where
  "env_ok =
     \<lparr>http_get = (\<lambda>url. Inr \<lparr>status_error = None, content_length = Some 8,
                              body = [''abcd'', '''', ''efgh''], body_error = None\<rparr>),
      open_wb = (\<lambda>p. None),
      read_csv = (\<lambda>c. Inr df0),
      to_parquet = (\<lambda>df c. Inr ''PAR1''),
      from_service_account_file = (\<lambda>p. None),
      upload_from_filename = (\<lambda>b p c. None),
      get_dataset = (\<lambda>r. None),
      create_dataset = (\<lambda>r l. None),
      load_table_from_uri = (\<lambda>u t d. Inr ''job_1''),
      job_result = (\<lambda>j. None),
      get_table = (\<lambda>t. Inr 2)\<rparr>"

text \<open>The download host refuses the connection.\<close>

definition env_down :: env where
  "env_down = env_ok\<lparr>http_get := (\<lambda>url. Inl (Exn RequestException ''Connection refused''))\<rparr>"

text \<open>The connection breaks after the first chunk.\<close>

definition env_cut :: env where
  "env_cut =
     env_ok\<lparr>http_get := (\<lambda>url. Inr \<lparr>status_error = None, content_length = Some 8,
                                      body = [''abcd''],
                                      body_error = Some (Exn RequestException
                                                            ''Connection broken'')\<rparr>)\<rparr>"

text \<open>Cloud Storage rejects the upload.\<close>

definition env_upload_fails :: env where
  "env_upload_fails =
     env_ok\<lparr>upload_from_filename :=
              (\<lambda>b p c. Some (Exn GoogleCloudError ''503 Service Unavailable''))\<rparr>"

text \<open>
  The dataset is absent when looked up and present when created: another run created it in
  between.
\<close>

definition env_race :: env where
  "env_race =
     env_ok\<lparr>get_dataset := (\<lambda>r. Some (Exn NotFound ''404 Not found'')),
            create_dataset := (\<lambda>r l. Some (Exn Conflict ''409 Already Exists''))\<rparr>"

definition w_start :: world where
  "w_start = \<lparr>files = [(''credentials.json'', ''{}'')], log = [], debug = False\<rparr>"

text \<open>The raw and the columnar artifact of table \<^verbatim>\<open>A\<close> are on disk.\<close>

definition w_cached :: world where
  "w_cached =
     \<lparr>files = [(''credentials.json'', ''{}''), (''data/raw/A.tsv.gz'', ''abcdefgh''),
               (''data/parquet/A.parquet'', ''PAR1'')],
      log = [], debug = False\<rparr>"

text \<open>The dataset is absent and its creation succeeds.\<close>

definition env_absent :: env where
  "env_absent = env_ok\<lparr>get_dataset := (\<lambda>r. Some (Exn NotFound ''404 Not found''))\<rparr>"

text \<open>The lookup of the dataset is refused.\<close>

definition env_forbidden :: env where
  "env_forbidden = env_ok\<lparr>get_dataset := (\<lambda>r. Some (Exn GoogleCloudError ''403 Forbidden''))\<rparr>"

text \<open>The service account file cannot be read.\<close>

definition env_no_credentials :: env where
  "env_no_credentials =
     env_ok\<lparr>from_service_account_file :=
              (\<lambda>p. Some (Exn FileNotFoundError ''credentials.json''))\<rparr>"

text \<open>The user interrupts the process during the download.\<close>

definition env_interrupted :: env where
  "env_interrupted = env_ok\<lparr>http_get := (\<lambda>url. Inl (Exn KeyboardInterrupt ''Ctrl-C''))\<rparr>"

text \<open>A raw file of three rows, and a columnar file as large as the raw one is small.\<close>

definition df3 :: dataframe where
  "df3 = \<lparr>columns = [''tconst'', ''rating''],
          rows = [[Some ''tt1'', Some ''9''], [Some ''tt2'', None], [Some ''tt3'', None]]\<rparr>"

definition env_three_rows :: env where
  "env_three_rows = env_ok\<lparr>read_csv := (\<lambda>c. Inr df3)\<rparr>"

text \<open>The raw file does not parse; the codec is missing.\<close>

definition env_malformed :: env where
  "env_malformed = env_ok\<lparr>read_csv := (\<lambda>c. Inl (Exn ParserError ''Error tokenizing data''))\<rparr>"

definition env_no_codec :: env where
  "env_no_codec =
     env_ok\<lparr>to_parquet := (\<lambda>df c. Inl (Exn OtherException ''snappy not available''))\<rparr>"

text \<open>The host answers 404; the raw folder cannot be written.\<close>

definition env_not_found :: env where
  "env_not_found =
     env_ok\<lparr>http_get := (\<lambda>url. Inr \<lparr>status_error = Some (Exn RequestException ''404 Not Found''),
                                      content_length = None, body = [],
                                      body_error = None\<rparr>)\<rparr>"

definition env_read_only :: env where
  "env_read_only = env_ok\<lparr>open_wb := (\<lambda>p. Some (Exn IOError ''Read-only file system''))\<rparr>"

text \<open>The first table is served, the host is down for the later ones.\<close>

definition evs_mixed :: "nat \<Rightarrow> env" where
  "evs_mixed i = (if i = 1 then env_ok else env_down)"

text \<open>A configuration left at the template's placeholder.\<close>

definition cfg_unset :: config where
  "cfg_unset = cfg0\<lparr>project_id := ''your-project-id''\<rparr>"

section \<open>How the log and the files evolve\<close>

lemma grows_log: "grows P w w' \<Longrightarrow> log w' = log w @ new_log w w'"
  unfolding grows_def new_log_def by (metis append_take_drop_id)

lemma growsI:
  "log w' = log w @ xs \<Longrightarrow> list_all P xs \<Longrightarrow> set (paths w) \<subseteq> set (paths w') \<Longrightarrow> grows P w w'"
  by (simp add: grows_def new_log_def)

lemma grows_refl [simp]: "grows P w w"
  by (simp add: grows_def new_log_def)

lemma grows_paths: "grows P w w' \<Longrightarrow> set (paths w) \<subseteq> set (paths w')"
  by (simp add: grows_def)

lemma grows_all: "grows P w w' \<Longrightarrow> list_all P (new_log w w')"
  by (simp add: grows_def)

lemma grows_update:
  "grows P w w' \<Longrightarrow> grows P w (w'\<lparr>files := AList.update k v (files w')\<rparr>)"
  by (auto simp: grows_def new_log_def paths_def dom_update)

lemma grows_logger: "grows P w w' \<Longrightarrow> P (l, m) \<Longrightarrow> grows P w (logger l m w')"
proof -
  assume a: "grows P w w'" and p: "P (l, m)"
  have "log (logger l m w') = log w @ (new_log w w' @ [(l, m)])"
    using grows_log [OF a] by (simp add: logger_def)
  moreover have "list_all P (new_log w w' @ [(l, m)])"
    using a p by (simp add: grows_def)
  moreover have "set (paths w) \<subseteq> set (paths (logger l m w'))"
    using a by (simp add: grows_def logger_def paths_def)
  ultimately show ?thesis by (rule growsI)
qed

lemma grows_mono: "grows P w w' \<Longrightarrow> (\<And>x. P x \<Longrightarrow> Q x) \<Longrightarrow> grows Q w w'"
  by (auto simp: grows_def list_all_iff)

lemma new_log_trans:
  assumes "grows P w w1" and "grows Q w1 w2"
  shows "new_log w w2 = new_log w w1 @ new_log w1 w2"
proof -
  have "log w2 = log w @ (new_log w w1 @ new_log w1 w2)"
    using grows_log [OF assms(1)] grows_log [OF assms(2)] by simp
  then show ?thesis by (simp add: new_log_def [of w w2])
qed

lemma grows_trans:
  assumes "grows P w w1" and "grows P w1 w2"
  shows "grows P w w2"
proof (rule growsI)
  show "log w2 = log w @ (new_log w w1 @ new_log w1 w2)"
    using grows_log [OF assms(1)] grows_log [OF assms(2)] by simp
  show "list_all P (new_log w w1 @ new_log w1 w2)"
    using assms by (simp add: grows_def)
  show "set (paths w) \<subseteq> set (paths w2)"
    using assms by (auto simp: grows_def)
qed

lemma paths_logger [simp]: "paths (logger l m w) = paths w"
  by (simp add: logger_def paths_def)

lemma log_logger: "log (logger l m w) = log w @ [(l, m)]"
  by (simp add: logger_def)

lemma new_log_logger: "new_log w (logger l m w) = [(l, m)]"
  by (simp add: new_log_def logger_def)

lemma stage_msgs:
  "is_fetch_msg x \<Longrightarrow> is_stage_msg x" "is_transform_msg x \<Longrightarrow> is_stage_msg x"
  "is_publish_msg x \<Longrightarrow> is_stage_msg x" "is_load_msg x \<Longrightarrow> is_stage_msg x"
  by (cases x rule: is_stage_msg.cases; simp)+

lemma write_chunks_grows:
  assumes "\<And>x. is_fetch_msg x \<Longrightarrow> P x"
  shows "grows P w w0 \<Longrightarrow> grows P w (write_chunks cs ts dest chunks d w0)"
proof (induction chunks arbitrary: d w0 ts)
  case Nil
  then show ?case by simp
next
  case (Cons c chunks)
  show ?case
    by (auto simp: Let_def intro!: Cons.IH grows_logger grows_update Cons.prems assms)
qed

lemma download_failed_grows:
  assumes "\<And>x. is_fetch_msg x \<Longrightarrow> P x"
  shows "grows P w w0 \<Longrightarrow> grows P w (snd (download_failed e w0))"
  by (auto simp: download_failed_def intro!: grows_logger assms)

lemma download_file_grows:
  assumes "\<And>x. is_fetch_msg x \<Longrightarrow> P x"
  shows "grows P w w0 \<Longrightarrow> grows P w (snd (download_file ev url dest cs w0))"
  unfolding download_file_def Let_def
  by (auto split: sum.split option.split
           intro!: download_failed_grows write_chunks_grows grows_logger grows_update assms)

lemma convert_body_grows:
  assumes "\<And>x. is_transform_msg x \<Longrightarrow> P x"
  shows "grows P w w0 \<Longrightarrow> grows P w (snd (convert_body ev tsv pq c w0))"
  unfolding convert_body_def Let_def
  by (auto split: sum.split option.split intro!: grows_logger grows_update assms)

lemma convert_to_parquet_grows:
  assumes "\<And>x. is_transform_msg x \<Longrightarrow> P x"
  shows "grows P w w0 \<Longrightarrow> grows P w (snd (convert_to_parquet ev tsv pq c w0))"
proof -
  assume a: "grows P w w0"
  have b: "grows P w (snd (convert_body ev tsv pq c (logger INFO (Transform (Converting tsv pq)) w0)))"
    by (intro convert_body_grows grows_logger a assms) simp_all
  show ?thesis
    using b unfolding convert_to_parquet_def
    by (auto split: prod.split sum.split intro!: grows_logger assms)
qed

lemma upload_body_grows:
  assumes "\<And>x. is_publish_msg x \<Longrightarrow> P x"
  shows "grows P w w0 \<Longrightarrow> grows P w (snd (upload_body ev cfg lp gp b w0))"
  unfolding upload_body_def Let_def
  by (auto split: sum.split option.split intro!: grows_logger assms)

lemma upload_to_gcs_grows:
  assumes "\<And>x. is_publish_msg x \<Longrightarrow> P x"
  shows "grows P w w0 \<Longrightarrow> grows P w (snd (upload_to_gcs ev cfg lp gp b w0))"
proof -
  assume a: "grows P w w0"
  define bk where "bk = (case b of None \<Rightarrow> bucket_name cfg
                         | Some b' \<Rightarrow> if b' = [] then bucket_name cfg else b')"
  have b: "grows P w (snd (upload_body ev cfg lp gp bk (logger INFO (Publish (Uploading lp bk gp)) w0)))"
    by (intro upload_body_grows grows_logger a assms) simp_all
  show ?thesis
    using b unfolding upload_to_gcs_def Let_def bk_def [symmetric]
    by (auto split: prod.split sum.split intro!: grows_logger assms)
qed

lemma ensure_dataset_exists_grows:
  assumes "\<And>x. is_load_msg x \<Longrightarrow> P x"
  shows "grows P w w0 \<Longrightarrow> grows P w (snd (ensure_dataset_exists ev cfg ds loc w0))"
  unfolding ensure_dataset_exists_def Let_def
  by (auto split: sum.split option.split intro!: grows_logger assms)

lemma load_body_grows:
  assumes "\<And>x. is_load_msg x \<Longrightarrow> P x"
  shows "grows P w w0 \<Longrightarrow> grows P w (snd (load_body ev cfg uri ds t wd w0))"
proof -
  assume a: "grows P w w0"
  have b: "grows P w (snd (ensure_dataset_exists ev cfg ds ''EU'' w0))"
    by (intro ensure_dataset_exists_grows a assms)
  show ?thesis
    using a b unfolding load_body_def Let_def
    by (auto split: prod.split sum.split option.split intro!: grows_logger assms)
qed

lemma load_to_bigquery_grows:
  assumes "\<And>x. is_load_msg x \<Longrightarrow> P x"
  shows "grows P w w0 \<Longrightarrow> grows P w (snd (load_to_bigquery ev cfg uri ds t wd w0))"
proof -
  assume a: "grows P w w0"
  have b: "grows P w (snd (load_body ev cfg uri ds t wd (logger INFO (Load (Loading uri ds t)) w0)))"
    by (intro load_body_grows grows_logger a assms) simp_all
  show ?thesis
    using b unfolding load_to_bigquery_def
    by (auto split: prod.split sum.split intro!: grows_logger assms)
qed

lemma fetch_step_grows:
  assumes "\<And>x. is_stage_msg x \<Longrightarrow> P x"
  shows "grows P w w0 \<Longrightarrow> grows P w (snd (fetch_step ev cfg t f w0))"
proof -
  have f: "\<And>x. is_fetch_msg x \<Longrightarrow> P x" by (simp add: assms stage_msgs)
  show "grows P w w0 \<Longrightarrow> grows P w (snd (fetch_step ev cfg t f w0))"
    unfolding fetch_step_def Let_def
    by (auto intro!: download_file_grows [OF f] grows_logger assms)
qed

lemma transform_step_grows:
  assumes "\<And>x. is_stage_msg x \<Longrightarrow> P x"
  shows "grows P w w0 \<Longrightarrow> grows P w (snd (transform_step ev cfg t f w0))"
proof -
  have f: "\<And>x. is_transform_msg x \<Longrightarrow> P x" by (simp add: assms stage_msgs)
  show "grows P w w0 \<Longrightarrow> grows P w (snd (transform_step ev cfg t f w0))"
    unfolding transform_step_def Let_def
    by (auto intro!: convert_to_parquet_grows [OF f] grows_logger assms)
qed

lemma publish_step_grows:
  assumes "\<And>x. is_stage_msg x \<Longrightarrow> P x"
  shows "grows P w w0 \<Longrightarrow> grows P w (snd (publish_step ev cfg t w0))"
proof -
  have f: "\<And>x. is_publish_msg x \<Longrightarrow> P x" by (simp add: assms stage_msgs)
  show "grows P w w0 \<Longrightarrow> grows P w (snd (publish_step ev cfg t w0))"
    unfolding publish_step_def Let_def
    by (auto intro!: upload_to_gcs_grows [OF f])
qed

lemma load_step_grows:
  assumes "\<And>x. is_stage_msg x \<Longrightarrow> P x"
  shows "grows P w w0 \<Longrightarrow> grows P w (snd (load_step ev cfg t s uri w0))"
proof -
  have f: "\<And>x. is_load_msg x \<Longrightarrow> P x" by (simp add: assms stage_msgs)
  show "grows P w w0 \<Longrightarrow> grows P w (snd (load_step ev cfg t s uri w0))"
    unfolding load_step_def Let_def
    by (auto intro!: load_to_bigquery_grows [OF f] grows_logger assms)
qed

text \<open>The try block: stage messages, then the success line when no step raised.\<close>

lemma process_body_cases:
  obtains (fetch) e w1 where
      "fetch_step ev cfg t f w = (Inl e, w1)"
      "process_body ev cfg t f s w = (Inl e, w1)"
  | (transform) w1 e w2 where
      "fetch_step ev cfg t f w = (Inr (), w1)"
      "transform_step ev cfg t f w1 = (Inl e, w2)"
      "process_body ev cfg t f s w = (Inl e, w2)"
  | (publish) w1 w2 e w3 where
      "fetch_step ev cfg t f w = (Inr (), w1)"
      "transform_step ev cfg t f w1 = (Inr (), w2)"
      "publish_step ev cfg t w2 = (Inl e, w3)"
      "process_body ev cfg t f s w = (Inl e, w3)"
  | (load) w1 w2 uri w3 e w4 where
      "fetch_step ev cfg t f w = (Inr (), w1)"
      "transform_step ev cfg t f w1 = (Inr (), w2)"
      "publish_step ev cfg t w2 = (Inr uri, w3)"
      "load_step ev cfg t s uri w3 = (Inl e, w4)"
      "process_body ev cfg t f s w = (Inl e, w4)"
  | (ok) w1 w2 uri w3 w4 where
      "fetch_step ev cfg t f w = (Inr (), w1)"
      "transform_step ev cfg t f w1 = (Inr (), w2)"
      "publish_step ev cfg t w2 = (Inr uri, w3)"
      "load_step ev cfg t s uri w3 = (Inr (), w4)"
      "process_body ev cfg t f s w = (Inr (), logger INFO (Table (SuccessfullyProcessed t)) w4)"
proof -
  obtain r1 w1 where s1: "fetch_step ev cfg t f w = (r1, w1)"
    by (cases "fetch_step ev cfg t f w")
  obtain r2 w2 where s2: "transform_step ev cfg t f w1 = (r2, w2)"
    by (cases "transform_step ev cfg t f w1")
  obtain r3 w3 where s3: "publish_step ev cfg t w2 = (r3, w3)"
    by (cases "publish_step ev cfg t w2")
  show thesis
  proof (cases r1)
    case (Inl e)
    then show thesis using fetch [of e w1] s1 by (simp add: process_body_def)
  next
    case r1: (Inr u1)
    show thesis
    proof (cases r2)
      case (Inl e)
      then show thesis using transform [of w1 e w2] s1 s2 r1 by (simp add: process_body_def)
    next
      case r2: (Inr u2)
      show thesis
      proof (cases r3)
        case (Inl e)
        then show thesis using publish [of w1 w2 e w3] s1 s2 s3 r1 r2
          by (simp add: process_body_def)
      next
        case r3: (Inr uri)
        obtain r4 w4 where s4: "load_step ev cfg t s uri w3 = (r4, w4)"
          by (cases "load_step ev cfg t s uri w3")
        show thesis
        proof (cases r4)
          case (Inl e)
          then show thesis using load [of w1 w2 uri w3 e w4] s1 s2 s3 s4 r1 r2 r3
            by (simp add: process_body_def)
        next
          case (Inr u4)
          then show thesis using ok [of w1 w2 uri w3 w4] s1 s2 s3 s4 r1 r2 r3
            by (simp add: process_body_def)
        qed
      qed
    qed
  qed
qed

lemma process_body_log:
  obtains xs where
    "list_all is_stage_msg xs"
    "set (paths w) \<subseteq> set (paths (snd (process_body ev cfg t f s w)))"
    "log (snd (process_body ev cfg t f s w)) =
       log w @ xs @ (case fst (process_body ev cfg t f s w) of
                       Inl e \<Rightarrow> [] | Inr u \<Rightarrow> [(INFO, Table (SuccessfullyProcessed t))])"
proof -
  let ?P = is_stage_msg
  note rule = that
  have g1: "grows ?P w (snd (fetch_step ev cfg t f w))"
    by (rule fetch_step_grows) simp_all
  have fin: thesis if "grows ?P w w'" "process_body ev cfg t f s w = (Inl e, w')" for w' e
    using that(2) grows_log [OF that(1)] grows_all [OF that(1)] grows_paths [OF that(1)]
    by (intro rule [of "new_log w w'"]) simp_all
  show thesis
  proof (cases rule: process_body_cases [where ev = ev and cfg = cfg and t = t and f = f and w = w and s = s])
    case (fetch e w1)
    show thesis using g1 fetch by (intro fin [of w1 e]) simp_all
  next
    case (transform w1 e w2)
    have "grows ?P w w1" using g1 transform by simp
    then have "grows ?P w (snd (transform_step ev cfg t f w1))"
      by (intro transform_step_grows) simp_all
    then show thesis using transform by (intro fin [of w2 e]) simp_all
  next
    case (publish w1 w2 e w3)
    have "grows ?P w w1" using g1 publish by simp
    then have "grows ?P w (snd (transform_step ev cfg t f w1))"
      by (intro transform_step_grows) simp_all
    then have "grows ?P w w2" using publish by simp
    then have "grows ?P w (snd (publish_step ev cfg t w2))"
      by (intro publish_step_grows) simp_all
    then show thesis using publish by (intro fin [of w3 e]) simp_all
  next
    case (load w1 w2 uri w3 e w4)
    have "grows ?P w w1" using g1 load by simp
    then have "grows ?P w (snd (transform_step ev cfg t f w1))"
      by (intro transform_step_grows) simp_all
    then have "grows ?P w w2" using load by simp
    then have "grows ?P w (snd (publish_step ev cfg t w2))"
      by (intro publish_step_grows) simp_all
    then have "grows ?P w w3" using load by simp
    then have "grows ?P w (snd (load_step ev cfg t s uri w3))"
      by (intro load_step_grows) simp_all
    then show thesis using load by (intro fin [of w4 e]) simp_all
  next
    case (ok w1 w2 uri w3 w4)
    have "grows ?P w w1" using g1 ok by simp
    then have "grows ?P w (snd (transform_step ev cfg t f w1))"
      by (intro transform_step_grows) simp_all
    then have "grows ?P w w2" using ok by simp
    then have "grows ?P w (snd (publish_step ev cfg t w2))"
      by (intro publish_step_grows) simp_all
    then have "grows ?P w w3" using ok by simp
    then have "grows ?P w (snd (load_step ev cfg t s uri w3))"
      by (intro load_step_grows) simp_all
    then have g: "grows ?P w w4" using ok by simp
    show thesis
      using ok(5) grows_log [OF g] grows_all [OF g] grows_paths [OF g]
      by (intro rule [of "new_log w w4"]) (simp_all add: log_logger)
  qed
qed

lemma map_filter_append:
  "List.map_filter f (xs @ ys) = List.map_filter f xs @ List.map_filter f ys"
  by (simp add: List.map_filter_def)

lemma invoked_append [simp]: "invoked (xs @ ys) = invoked xs @ invoked ys"
  by (simp add: invoked_def map_filter_append)

lemma outcomes_append [simp]: "outcomes (xs @ ys) = outcomes xs @ outcomes ys"
  by (simp add: outcomes_def map_filter_append)

lemma invoked_simps [simp]:
  "invoked [] = []"
  "invoked (x # xs) = (case started x of None \<Rightarrow> invoked xs | Some t \<Rightarrow> t # invoked xs)"
  by (simp_all add: invoked_def split: option.split)

lemma outcomes_simps [simp]:
  "outcomes [] = []"
  "outcomes (x # xs) = (case outcome x of None \<Rightarrow> outcomes xs | Some p \<Rightarrow> p # outcomes xs)"
  by (simp_all add: outcomes_def split: option.split)

lemma stage_msg_silent:
  "is_stage_msg x \<Longrightarrow> started x = None \<and> outcome x = None \<and> \<not> is_cleanup_msg x"
  by (cases x rule: is_stage_msg.cases) simp_all

lemma stage_msgs_silent:
  "list_all is_stage_msg xs \<Longrightarrow>
     invoked xs = [] \<and> outcomes xs = [] \<and> filter is_cleanup_msg xs = []"
  by (induction xs) (auto dest: stage_msg_silent)

lemma assign_all_append [simp]:
  "assign_all (xs @ ys) rs = assign_all ys (assign_all xs rs)"
  by (simp add: assign_all_def)

lemma assign_all_simps [simp]:
  "assign_all [] rs = rs"
  "assign_all ((t, b) # kvs) rs = assign_all kvs (AList.update t b rs)"
  by (simp_all add: assign_all_def)

lemma log_fold_logger:
  "log (fold (\<lambda>t. logger l (g t)) ts w) = log w @ map (\<lambda>t. (l, g t)) ts"
  by (induction ts arbitrary: w) (simp_all add: log_logger)

lemma files_logger [simp]: "files (logger l m w) = files w"
  by (simp add: logger_def)

lemma files_fold_logger [simp]: "files (fold (\<lambda>t. logger l (g t)) ts w) = files w"
  by (induction ts arbitrary: w) simp_all

lemma run_banner_log:
  "log (run_banner cfg n f w) =
     log w @ map (Pair INFO)
       [sep70, Text ''IMDB Data Ingestion Pipeline'', sep70,
        Run (Project (project_id cfg)), Run (Bucket (bucket_name cfg)),
        Run (Dataset (bronze_dataset cfg)), Run (TablesToProcess n),
        Run (ForceDownload f), sep70]"
  by (simp add: run_banner_def log_logger)

lemma run_banner_files [simp]: "files (run_banner cfg n f w) = files w"
  by (simp add: run_banner_def)

lemma run_banner_paths [simp]: "paths (run_banner cfg n f w) = paths w"
  by (simp add: paths_def)

lemma new_log_append: "log w' = log w @ xs \<Longrightarrow> new_log w w' = xs"
  by (simp add: new_log_def)

lemma update_fresh: "k \<notin> fst ` set rs \<Longrightarrow> AList.update k v rs = rs @ [(k, v)]"
  by (induction rs) auto

lemma assign_all_distinct:
  "distinct (map fst rs @ map fst kvs) \<Longrightarrow> assign_all kvs rs = rs @ kvs"
proof (induction kvs arbitrary: rs)
  case Nil
  show ?case by simp
next
  case (Cons kv kvs)
  obtain k v where kv: "kv = (k, v)" by (cases kv)
  have f: "k \<notin> fst ` set rs" using Cons.prems by (auto simp: kv)
  have "distinct (map fst (rs @ [(k, v)]) @ map fst kvs)"
    using Cons.prems by (auto simp: kv)
  from Cons.IH [OF this] show ?case by (simp add: kv update_fresh [OF f])
qed

lemma assign_all_keys: "fst ` set (assign_all kvs rs) = fst ` set rs \<union> fst ` set kvs"
proof (induction kvs arbitrary: rs)
  case Nil
  show ?case by simp
next
  case (Cons kv kvs)
  obtain k v where kv: "kv = (k, v)" by (cases kv)
  show ?case by (simp add: kv Cons.IH dom_update)
qed

lemma assign_all_lookup:
  "map_of (assign_all kvs rs) t = Some b \<Longrightarrow> (t, b) \<in> set kvs \<or> map_of rs t = Some b"
proof (induction kvs arbitrary: rs)
  case Nil
  then show ?case by simp
next
  case (Cons kv kvs)
  obtain k v where kv: "kv = (k, v)" by (cases kv)
  have "map_of (assign_all kvs (AList.update k v rs)) t = Some b"
    using Cons.prems by (simp add: kv)
  from Cons.IH [OF this]
  have "(t, b) \<in> set kvs \<or> map_of (AList.update k v rs) t = Some b" .
  then show ?case
  proof
    assume "(t, b) \<in> set kvs"
    then show ?thesis by simp
  next
    assume m: "map_of (AList.update k v rs) t = Some b"
    show ?thesis
    proof (cases "t = k")
      case True
      with m have "v = b" by (simp add: update_conv')
      with True show ?thesis by (simp add: kv)
    next
      case False
      with m have "map_of rs t = Some b" by (simp add: update_conv')
      then show ?thesis by simp
    qed
  qed
qed

lemma assign_all_nonempty: "kvs \<noteq> [] \<or> rs \<noteq> [] \<Longrightarrow> assign_all kvs rs \<noteq> []"
proof (induction kvs arbitrary: rs)
  case Nil
  then show ?case by simp
next
  case (Cons kv kvs)
  obtain k v where kv: "kv = (k, v)" by (cases kv)
  have "assign_all kvs (AList.update k v rs) \<noteq> []"
    by (rule Cons.IH) simp
  then show ?case by (simp add: kv)
qed

lemma update_set: "set (AList.update k v rs) \<subseteq> insert (k, v) (set rs)"
  by (induction rs) auto

lemma assign_all_mem:
  "(t, b) \<in> set (assign_all kvs rs) \<Longrightarrow> (t, b) \<in> set kvs \<or> (t, b) \<in> set rs"
proof (induction kvs arbitrary: rs)
  case Nil
  then show ?case by simp
next
  case (Cons kv kvs)
  obtain k v where kv: "kv = (k, v)" by (cases kv)
  have "(t, b) \<in> set (assign_all kvs (AList.update k v rs))"
    using Cons.prems by (simp add: kv)
  from Cons.IH [OF this]
  have "(t, b) \<in> set kvs \<or> (t, b) \<in> set (AList.update k v rs)" .
  then show ?case using update_set [of k v rs] by (auto simp: kv)
qed

lemma process_table_raises:
  "fst (process_table ev cfg t f s w) = Inl e \<Longrightarrow> \<not> is_Exception e"
  by (auto simp: process_table_def Let_def split: prod.splits sum.splits if_splits)

lemma process_table_trace:
  obtains xs where
    "log (snd (process_table ev cfg t f s w)) = log w @ xs"
    "invoked xs = [t]"
    "outcomes xs = (case fst (process_table ev cfg t f s w) of
                      Inr b \<Rightarrow> [(t, b)] | Inl e \<Rightarrow> [])"
    "filter is_cleanup_msg xs = []"
    "set (paths w) \<subseteq> set (paths (snd (process_table ev cfg t f s w)))"
proof -
  define w0 where "w0 = logger INFO sep70
                 (logger INFO (Table (ProcessingTable t)) (logger INFO sep70 w))"
  have l0: "log w0 = log w @ table_header t" and p0: "paths w0 = paths w"
    by (simp_all add: w0_def table_header_def logger_def paths_def)
  have h: "invoked (table_header t) = [t]" "outcomes (table_header t) = []"
    "filter is_cleanup_msg (table_header t) = []"
    by (simp_all add: table_header_def sep70_def)
  obtain r w' where b: "process_body ev cfg t f s w0 = (r, w')"
    by (cases "process_body ev cfg t f s w0")
  obtain ys where ys: "list_all is_stage_msg ys" "set (paths w0) \<subseteq> set (paths w')"
    "log w' = log w0 @ ys @ (case r of
                       Inl e \<Rightarrow> [] | Inr u \<Rightarrow> [(INFO, Table (SuccessfullyProcessed t))])"
    using process_body_log [of w0 ev cfg t f s] b by auto
  note q = stage_msgs_silent [OF ys(1)]
  show thesis
  proof (cases r)
    case (Inl e)
    show thesis
    proof (cases "is_Exception e")
      case True
      have pt: "process_table ev cfg t f s w
                  = (Inr False, logger ERROR (Table (FailedToProcess t e)) w')"
        using b Inl True by (simp add: process_table_def w0_def [symmetric])
      show thesis
        using ys Inl l0 p0 q h
        by (intro that [of "table_header t @ ys @ [(ERROR, Table (FailedToProcess t e))]"])
           (simp_all add: pt log_logger)
    next
      case False
      have pt: "process_table ev cfg t f s w = (Inl e, w')"
        using b Inl False by (simp add: process_table_def w0_def [symmetric])
      show thesis
        using ys Inl l0 p0 q h
        by (intro that [of "table_header t @ ys"]) (simp_all add: pt)
    qed
  next
    case (Inr u)
    have pt: "process_table ev cfg t f s w = (Inr True, w')"
      using b Inr by (simp add: process_table_def w0_def [symmetric])
    show thesis
      using ys Inr l0 p0 q h
      by (intro that [of "table_header t @ ys @ [(INFO, Table (SuccessfullyProcessed t))]"])
         (simp_all add: pt)
  qed
qed

lemma run_loop_trace:
  "\<exists>xs. log (snd (run_loop evs cfg f s ff i n ts rs w)) = log w @ xs
        \<and> filter is_cleanup_msg xs = []
        \<and> set (paths w) \<subseteq> set (paths (snd (run_loop evs cfg f s ff i n ts rs w)))
        \<and> loop_post ff ts rs xs (fst (run_loop evs cfg f s ff i n ts rs w))"
proof (induction ts arbitrary: i rs w)
  case Nil
  show ?case by (simp add: loop_post_def)
next
  case (Cons t ts)
  define w0 where "w0 = logger INFO (Run (Starting i n t)) w"
  obtain b w1 where pt: "process_table (evs i) cfg t f s w0 = (b, w1)"
    by (cases "process_table (evs i) cfg t f s w0")
  obtain ys where ys:
    "log w1 = log w0 @ ys" "invoked ys = [t]"
    "outcomes ys = (case b of Inr b' \<Rightarrow> [(t, b')] | Inl e \<Rightarrow> [])"
    "filter is_cleanup_msg ys = []" "set (paths w0) \<subseteq> set (paths w1)"
    using process_table_trace [of "evs i" cfg t f s w0] pt by auto
  have l0: "log w0 = log w @ [(INFO, Run (Starting i n t))]" and p0: "paths w0 = paths w"
    by (simp_all add: w0_def log_logger)
  let ?L = "run_loop evs cfg f s ff i n (t # ts) rs w"
  show ?case
  proof (cases b)
    case (Inl e)
    have r: "?L = (Inl e, w1)"
      using Inl pt by (simp add: w0_def [symmetric])
    have ne: "\<not> is_Exception e"
      using process_table_raises [of "evs i" cfg t f s w0 e] pt Inl by simp
    let ?xs = "(INFO, Run (Starting i n t)) # ys"
    have "log (snd ?L) = log w @ ?xs" unfolding r by (simp add: ys l0)
    moreover have "filter is_cleanup_msg ?xs = []" by (simp add: ys)
    moreover have "set (paths w) \<subseteq> set (paths (snd ?L))"
      using ys(5) unfolding r by (simp add: p0)
    moreover have "loop_post ff (t # ts) rs ?xs (fst ?L)"
      unfolding r using ne by (simp add: loop_post_def)
    ultimately show ?thesis by blast
  next
    case (Inr b')
    note bb = Inr
    have oy: "outcomes ys = [(t, b')]" using ys(3) bb by simp
    show ?thesis
    proof (cases "\<not> b' \<and> ff")
      case True
      have r: "?L = (Inr (AList.update t b' rs), logger ERROR (Run StoppingFailFast) w1)"
        using True pt bb by (simp add: w0_def [symmetric])
      let ?xs = "(INFO, Run (Starting i n t)) # ys @ [(ERROR, Run StoppingFailFast)]"
      have "log (snd ?L) = log w @ ?xs" unfolding r by (simp add: log_logger ys l0)
      moreover have "filter is_cleanup_msg ?xs = []" by (simp add: ys)
      moreover have "set (paths w) \<subseteq> set (paths (snd ?L))"
        using ys(5) unfolding r by (simp add: p0)
      moreover have "loop_post ff (t # ts) rs ?xs (fst ?L)"
        unfolding r using True
        by (auto simp: loop_post_def ys(2) oy intro!: exI [of _ 0])
      ultimately show ?thesis by blast
    next
      case False
      let ?R = "run_loop evs cfg f s ff (Suc i) n ts (AList.update t b' rs) w1"
      have r: "?L = ?R"
        using False pt bb by (auto simp: w0_def [symmetric])
      obtain zs where zs:
        "log (snd ?R) = log w1 @ zs"
        "filter is_cleanup_msg zs = []"
        "set (paths w1) \<subseteq> set (paths (snd ?R))"
        "loop_post ff ts (AList.update t b' rs) zs (fst ?R)"
        using Cons.IH [of "Suc i" "AList.update t b' rs" w1] by blast
      let ?xs = "(INFO, Run (Starting i n t)) # ys @ zs"
      have "log (snd ?L) = log w @ ?xs" unfolding r by (simp add: zs ys l0)
      moreover have "filter is_cleanup_msg ?xs = []" by (simp add: ys zs)
      moreover have "set (paths w) \<subseteq> set (paths (snd ?L))"
        using ys(5) zs(3) unfolding r p0 [symmetric] by simp
      moreover have "loop_post ff (t # ts) rs ?xs (fst ?L)"
      proof (cases "fst ?R")
        case (Inl e)
        then show ?thesis using zs(4) unfolding r by (simp add: loop_post_def)
      next
        case (Inr rs')
        from zs(4) Inr have z1: "rs' = assign_all (outcomes zs) (AList.update t b' rs)"
          and z2: "map fst (outcomes zs) = invoked zs"
          and z3: "invoked zs = ts
               \<or> ff \<and> (\<exists>k < length ts. invoked zs = take (Suc k) ts
                                     \<and> outcomes zs \<noteq> [] \<and> \<not> snd (last (outcomes zs)))"
          by (simp_all add: loop_post_def)
        have a1: "rs' = assign_all (outcomes ?xs) rs" by (simp add: z1 oy)
        have a2: "map fst (outcomes ?xs) = invoked ?xs" by (simp add: z2 oy ys(2))
        have a3: "invoked ?xs = t # ts
               \<or> ff \<and> (\<exists>k < length (t # ts). invoked ?xs = take (Suc k) (t # ts)
                          \<and> outcomes ?xs \<noteq> [] \<and> \<not> snd (last (outcomes ?xs)))"
          using z3
        proof
          assume "invoked zs = ts"
          then show ?thesis by (simp add: ys(2))
        next
          assume h: "ff \<and> (\<exists>k < length ts. invoked zs = take (Suc k) ts
                                     \<and> outcomes zs \<noteq> [] \<and> \<not> snd (last (outcomes zs)))"
          then obtain k where k: "k < length ts" "invoked zs = take (Suc k) ts"
            "outcomes zs \<noteq> []" "\<not> snd (last (outcomes zs))" by blast
          have "Suc k < length (t # ts) \<and> invoked ?xs = take (Suc (Suc k)) (t # ts)
                 \<and> outcomes ?xs \<noteq> [] \<and> \<not> snd (last (outcomes ?xs))"
            using k by (simp add: ys(2) oy)
          then show ?thesis using h by blast
        qed
        show ?thesis unfolding r Inr using a1 a2 a3 by (simp add: loop_post_def)
      qed
      ultimately show ?thesis by blast
    qed
  qed
qed

lemma run_results_trace:
  "\<exists>xs. log (snd (run_results evs cfg tables f s ff w)) = log w @ xs
        \<and> filter is_cleanup_msg xs = []
        \<and> set (paths w) \<subseteq> set (paths (snd (run_results evs cfg tables f s ff w)))
        \<and> loop_post ff (tables_or_default tables) [] xs
              (fst (run_results evs cfg tables f s ff w))"
proof -
  define ts where "ts = tables_or_default tables"
  define w0 where "w0 = run_banner cfg (length ts) f w"
  let ?R = "run_loop evs cfg f s ff (Suc 0) (length ts) ts [] w0"
  have rr: "run_results evs cfg tables f s ff w = ?R"
    by (simp add: run_results_def ts_def w0_def Let_def)
  define hs where "hs = map (Pair INFO)
       [sep70, Text ''IMDB Data Ingestion Pipeline'', sep70,
        Run (Project (project_id cfg)), Run (Bucket (bucket_name cfg)),
        Run (Dataset (bronze_dataset cfg)), Run (TablesToProcess (length ts)),
        Run (ForceDownload f), sep70]"
  have l0: "log w0 = log w @ hs" by (simp add: w0_def hs_def run_banner_log)
  have h: "invoked hs = []" "outcomes hs = []" "filter is_cleanup_msg hs = []"
    by (simp_all add: hs_def sep70_def)
  obtain zs where zs:
      "log (snd ?R) = log w0 @ zs"
      "filter is_cleanup_msg zs = []"
      "set (paths w0) \<subseteq> set (paths (snd ?R))"
      "loop_post ff ts [] zs (fst ?R)"
    using run_loop_trace [of evs cfg f s ff "Suc 0" "length ts" ts "[]" w0] by blast
  have "log (snd ?R) = log w @ (hs @ zs)" by (simp add: zs l0)
  moreover have "filter is_cleanup_msg (hs @ zs) = []" by (simp add: zs h)
  moreover have "set (paths w) \<subseteq> set (paths (snd ?R))" using zs(3) by (simp add: w0_def)
  moreover have "loop_post ff ts [] (hs @ zs) (fst ?R)"
    using zs(4) by (simp add: loop_post_def h split: sum.splits)
  ultimately show ?thesis unfolding rr ts_def [symmetric] by blast
qed

lemma tables_or_default_nonempty: "tables_or_default tables \<noteq> []"
  by (simp add: tables_or_default_def Config_tables_def split: option.split)

lemma run_results_returns:
  assumes "run_results evs cfg tables f s ff w = (Inr rs, w')"
  obtains xs where
    "new_log w w' = xs" "log w' = log w @ xs"
    "rs = assign_all (outcomes xs) []"
    "map fst (outcomes xs) = invoked xs"
    "filter is_cleanup_msg xs = []"
    "set (paths w) \<subseteq> set (paths w')"
    "invoked xs = tables_or_default tables
       \<or> ff \<and> (\<exists>k < length (tables_or_default tables).
                   invoked xs = take (Suc k) (tables_or_default tables)
                   \<and> outcomes xs \<noteq> [] \<and> \<not> snd (last (outcomes xs)))"
    "outcomes xs \<noteq> []" "rs \<noteq> []"
proof -
  from run_results_trace [of evs cfg tables f s ff w]
  obtain xs where xs: "log w' = log w @ xs"
    "filter is_cleanup_msg xs = []"
    "set (paths w) \<subseteq> set (paths w')"
    "loop_post ff (tables_or_default tables) [] xs (Inr rs)"
    unfolding assms fst_conv snd_conv by blast
  from xs(4) have p: "rs = assign_all (outcomes xs) []"
    "map fst (outcomes xs) = invoked xs"
    "invoked xs = tables_or_default tables
       \<or> ff \<and> (\<exists>k < length (tables_or_default tables).
                   invoked xs = take (Suc k) (tables_or_default tables)
                   \<and> outcomes xs \<noteq> [] \<and> \<not> snd (last (outcomes xs)))"
    by (simp_all add: loop_post_def)
  have ne: "outcomes xs \<noteq> []"
    using p(2,3) tables_or_default_nonempty [of tables] by auto
  have ne': "rs \<noteq> []" unfolding p(1) using ne by (intro assign_all_nonempty) simp
  show thesis
    using xs(1,2,3) p ne ne' by (intro that [of xs]) (simp_all add: new_log_append)
qed

lemma run_results_raises:
  "run_results evs cfg tables f s ff w = (Inl e, w') \<Longrightarrow> \<not> is_Exception e"
  using run_results_trace [of evs cfg tables f s ff w] by (auto simp: loop_post_def)

lemma write_chunks_files:
  "map_of (files w) dest = Some old \<Longrightarrow>
     map_of (files (write_chunks cs ts dest chunks d w))
       = (map_of (files w))(dest \<mapsto> old @ concat chunks)"
proof (induction chunks arbitrary: d w old)
  case Nil
  then show ?case by (simp add: fun_upd_idem)
next
  case (Cons c chunks)
  show ?case
  proof (cases "c = []")
    case True
    then show ?thesis using Cons.IH [OF Cons.prems] by simp
  next
    case False
    define w1 where "w1 = w\<lparr>files := AList.update dest (old @ c) (files w)\<rparr>"
    define dd where "dd = d + length c"
    define w2 where "w2 = (if dd mod (10 * 1024 * 1024) < cs then
                     logger INFO
                       (Fetch (Progress (if ts \<noteq> 0
                                         then rat_of_nat dd / rat_of_nat ts * 100
                                         else 0)
                                        (dd div 1024 div 1024))) w1
                   else w1)"
    have f2: "files w2 = files w1" by (simp add: w2_def)
    have m2: "map_of (files w2) dest = Some (old @ c)"
      by (simp add: f2 w1_def update_conv')
    have step: "write_chunks cs ts dest (c # chunks) d w = write_chunks cs ts dest chunks dd w2"
      using False Cons.prems by (simp add: Let_def w1_def w2_def dd_def)
    show ?thesis
      unfolding step using Cons.IH [OF m2, of dd]
      by (auto simp: f2 w1_def update_conv' fun_eq_iff)
  qed
qed

lemma tables_or_default_simps:
  "tables_or_default None = Config_tables"
  "tables_or_default (Some []) = Config_tables"
  "tables_or_default (Some Config_tables) = Config_tables"
  by (simp_all add: tables_or_default_def)

lemma run_results_default:
  "run_results evs cfg None f s ff w = run_results evs cfg (Some []) f s ff w"
  "run_results evs cfg None f s ff w = run_results evs cfg (Some Config_tables) f s ff w"
  by (simp_all add: run_results_def tables_or_default_simps)

lemma distinct_Config_tables: "distinct Config_tables"
  by (simp add: Config_tables_def)

lemmas model_defs =
  run_pipeline_def run_results_def run_summary_def run_banner_def tables_or_default_def
  main_def validate_def join_def cleanup_local_files_def unlink_def glob_def endswith_def
  process_table_def process_body_def fetch_step_def transform_step_def publish_step_def
  load_step_def download_file_def download_failed_def convert_to_parquet_def convert_body_def
  upload_to_gcs_def upload_body_def get_gcs_client_def load_to_bigquery_def load_body_def
  ensure_dataset_exists_def get_bigquery_client_def logger_def exists_def st_size_def
  path_join_def startswith_def get_table_filename_def get_table_id_def get_gcs_path_def
  sep70_def is_Exception_def new_log_def paths_def Let_def

lemma validate_iff: "(\<exists>e. validate cfg w = Inl e) \<longleftrightarrow> config_error cfg w"
proof -
  define p where "p = (project_id cfg = [] \<or> startswith (project_id cfg) ''your-'')"
  define b where "b = (bucket_name cfg = [] \<or> startswith (bucket_name cfg) ''your-'')"
  have c: "config_error cfg w = (p \<or> b \<or> map_of (files w) (credentials_path cfg) = None)"
    unfolding config_error_def p_def b_def by (simp only: disj_assoc)
  show ?thesis
    unfolding c
    by (cases p; cases b)
       (simp_all add: validate_def exists_def Let_def p_def [symmetric] b_def [symmetric])
qed

lemma validate_debug: "validate cfg (w\<lparr>debug := b\<rparr>) = validate cfg w"
  by (simp add: validate_def exists_def)

lemma failed_empty:
  "map fst (filter (\<lambda>(t, success). \<not> success) rs) = [] \<longleftrightarrow> (\<forall>(t, b) \<in> set rs. b)"
  by (simp add: filter_empty_conv case_prod_beta)

lemma successful_nonempty:
  "map fst (filter snd rs) \<noteq> [] \<longleftrightarrow> (\<exists>(t, b) \<in> set rs. b)"
  by (simp add: filter_empty_conv case_prod_beta)

lemma exit_code_cases:
  "(if map fst (filter (\<lambda>(t, success). \<not> success) rs) = [] then (0::int)
    else if map fst (filter snd rs) \<noteq> [] then 1 else 2)
   = (if \<forall>(t, b) \<in> set rs. b then 0 else if \<exists>(t, b) \<in> set rs. b then 1 else 2)"
  unfolding failed_empty successful_nonempty by (rule refl)

lemma cleanup_silent_map:
  "filter is_cleanup_msg (map (\<lambda>t. (l, Run (g t))) ts) = []"
  "filter is_cleanup_msg (map (\<lambda>t. (l, Text (h t))) ts) = []"
  by (induction ts) simp_all

lemma run_summary_log:
  "\<exists>zs. log (run_summary rs w) = log w @ zs \<and> filter is_cleanup_msg zs = []"
proof -
  define w0 where "w0 = fold (logger INFO) [sep70, Text ''Pipeline Summary'', sep70] w"
  have l0: "log w0 = log w @ [(INFO, sep70), (INFO, Text ''Pipeline Summary''), (INFO, sep70)]"
    by (simp add: w0_def log_logger)
  show ?thesis
    unfolding run_summary_def Let_def w0_def [symmetric]
    by (simp add: log_fold_logger log_logger l0 sep70_def cleanup_silent_map)
qed

lemma run_summary_files [simp]: "files (run_summary rs w) = files w"
  by (simp add: run_summary_def Let_def)

lemma fold_unlink_log:
  "log (fold unlink ps w) = log w @ map (\<lambda>p. (INFO, Cleanup (Deleted p))) ps"
  by (induction ps arbitrary: w) (simp_all add: unlink_def log_logger)

lemma paths_delete: "map fst (AList.delete k al) = filter (\<lambda>p. p \<noteq> k) (map fst al)"
  by (induction al) auto

lemma fold_unlink_paths:
  "paths (fold unlink ps w) = filter (\<lambda>p. p \<notin> set ps) (paths w)"
proof (induction ps arbitrary: w)
  case Nil
  show ?case by simp
next
  case (Cons q ps)
  have "paths (unlink q w) = filter (\<lambda>p. p \<noteq> q) (paths w)"
    by (simp add: unlink_def paths_def paths_delete logger_def)
  then show ?case by (simp add: Cons.IH)
qed

lemma glob_files: "files w = files w' \<Longrightarrow> glob w folder suffix = glob w' folder suffix"
  by (simp add: glob_def)

lemma cleanup_keep_parquet:
  "log (cleanup_local_files cfg True w)
     = log w @ (INFO, Cleanup CleaningUp)
         # map (\<lambda>p. (INFO, Cleanup (Deleted p))) (glob w (raw_data_folder cfg) ''.tsv.gz'')
         @ [(INFO, Cleanup CleanupComplete)]"
  "paths (cleanup_local_files cfg True w)
     = filter (\<lambda>p. p \<notin> set (glob w (raw_data_folder cfg) ''.tsv.gz'')) (paths w)"
proof -
  have g: "glob (logger INFO (Cleanup CleaningUp) w) (raw_data_folder cfg) ''.tsv.gz''
             = glob w (raw_data_folder cfg) ''.tsv.gz''"
    by (rule glob_files) simp
  show "log (cleanup_local_files cfg True w)
     = log w @ (INFO, Cleanup CleaningUp)
         # map (\<lambda>p. (INFO, Cleanup (Deleted p))) (glob w (raw_data_folder cfg) ''.tsv.gz'')
         @ [(INFO, Cleanup CleanupComplete)]"
    by (simp add: cleanup_local_files_def Let_def g fold_unlink_log log_logger)
  show "paths (cleanup_local_files cfg True w)
     = filter (\<lambda>p. p \<notin> set (glob w (raw_data_folder cfg) ''.tsv.gz'')) (paths w)"
    by (simp add: cleanup_local_files_def Let_def g fold_unlink_paths)
qed




section \<open>Claims\<close>

text \<open>
  C9, as the claim states it: \<^verbatim>\<open>execute_sql\<close> never raises. It fails when a call of the
  \<^verbatim>\<open>try\<close> block raises an exception that does not derive from \<^verbatim>\<open>Exception\<close>: the
  handler is \<^verbatim>\<open>except Exception\<close>, and a \<^verbatim>\<open>KeyboardInterrupt\<close> raised while the
  query is submitted leaves \<^verbatim>\<open>execute_sql\<close>.
\<close>

theorem execute_sql_interrupted:
  "execute_sql aev_interrupted ''credentials.json'' ''SELECT 1''
     = Inl (Exn KeyboardInterrupt ''Ctrl-C'')"
  by (simp add: execute_sql_def execute_body_def aev_interrupted_def aev_ok_def
        is_Exception_def)

text \<open>
  C9, amended. For every query string and whatever the four calls of the \<^verbatim>\<open>try\<close> block
  do (reading the credentials, \<^verbatim>\<open>client.query\<close>, \<^verbatim>\<open>query_job.result()\<close>,
  \<^verbatim>\<open>results.to_dataframe()\<close>): when the first call that raises raises \<open>e\<close> and \<open>e\<close>
  derives from \<^verbatim>\<open>Exception\<close>, \<^verbatim>\<open>execute_sql\<close> returns a dictionary where
  \<^verbatim>\<open>success\<close> is false, \<^verbatim>\<open>data\<close> is \<^verbatim>\<open>None\<close>, \<^verbatim>\<open>error\<close> is \<^verbatim>\<open>str(e)\<close> and
  \<^verbatim>\<open>rows_returned\<close> is 0, and when \<open>e\<close> does not derive from \<^verbatim>\<open>Exception\<close>, \<open>e\<close>
  leaves \<^verbatim>\<open>execute_sql\<close>; when no call raises and the data frame is \<open>df\<close>, it returns a
  dictionary where \<^verbatim>\<open>success\<close> is true, \<^verbatim>\<open>data\<close> is \<open>df\<close>, \<^verbatim>\<open>error\<close> is
  \<^verbatim>\<open>None\<close> and \<^verbatim>\<open>rows_returned\<close> is the number of rows of \<open>df\<close>. Every dictionary
  it returns has the four keys, and no exception that derives from \<^verbatim>\<open>Exception\<close> leaves
  it.
\<close>

theorem execute_sql_by_call:
  "(\<forall>e. app_credentials aev cp = Some e \<longrightarrow> failure_of e (execute_sql aev cp q))
   \<and> (\<forall>e. app_credentials aev cp = None \<and> client_query aev q = Inl e
          \<longrightarrow> failure_of e (execute_sql aev cp q))
   \<and> (\<forall>job e. app_credentials aev cp = None \<and> client_query aev q = Inr job
            \<and> result job = Inl e
          \<longrightarrow> failure_of e (execute_sql aev cp q))
   \<and> (\<forall>job e. app_credentials aev cp = None \<and> client_query aev q = Inr job
            \<and> result job = Inr (Inl e)
          \<longrightarrow> failure_of e (execute_sql aev cp q))
   \<and> (\<forall>job df. app_credentials aev cp = None \<and> client_query aev q = Inr job
            \<and> result job = Inr (Inr df)
          \<longrightarrow> success_of df (execute_sql aev cp q))
   \<and> (\<forall>d. execute_sql aev cp q = Inr d
          \<longrightarrow> set [''success'', ''data'', ''error'', ''rows_returned''] \<subseteq> fst ` set d)
   \<and> (\<forall>e. execute_sql aev cp q = Inl e \<longrightarrow> \<not> is_Exception e)"
  by (auto simp: execute_sql_def execute_body_def query_failure_def failure_of_def
                 success_of_def failure_dict_def success_dict_def
           split: option.splits sum.splits if_splits)

theorem execute_sql_by_call_witness:
  "failure_of (Exn FileNotFoundError ''credentials.json'')
     (execute_sql aev_no_credentials ''credentials.json'' ''SELECT 1'')
   \<and> failure_of (Exn OtherException ''403 Access Denied'')
     (execute_sql aev_denied ''credentials.json'' ''SELECT 1'')
   \<and> failure_of (Exn GoogleCloudError ''400 Syntax error'')
     (execute_sql aev_job_fails ''credentials.json'' ''SELECT 1'')
   \<and> failure_of (Exn ValueError ''no pandas'')
     (execute_sql aev_frame_fails ''credentials.json'' ''SELECT 1'')
   \<and> failure_of (Exn KeyboardInterrupt ''Ctrl-C'')
     (execute_sql aev_interrupted ''credentials.json'' ''SELECT 1'')
   \<and> success_of frame0 (execute_sql aev_ok ''credentials.json'' ''SELECT 1'')
   \<and> length (rows frame0) = 2"
  using execute_sql_by_call [of aev_no_credentials "''credentials.json''" "''SELECT 1''"]
        execute_sql_by_call [of aev_denied "''credentials.json''" "''SELECT 1''"]
        execute_sql_by_call [of aev_job_fails "''credentials.json''" "''SELECT 1''"]
        execute_sql_by_call [of aev_frame_fails "''credentials.json''" "''SELECT 1''"]
        execute_sql_by_call [of aev_interrupted "''credentials.json''" "''SELECT 1''"]
        execute_sql_by_call [of aev_ok "''credentials.json''" "''SELECT 1''"]
  by (simp add: aev_ok_def aev_denied_def aev_no_credentials_def aev_job_fails_def
        aev_frame_fails_def aev_interrupted_def frame0_def)

text \<open>
  C7, as the claim states it: a creation failure caused by the dataset already existing is
  treated as success. It fails: when the lookup answers \<^verbatim>\<open>NotFound\<close> and another run
  creates the dataset before \<^verbatim>\<open>create_dataset\<close> is called, the \<^verbatim>\<open>Conflict\<close> that
  \<^verbatim>\<open>create_dataset\<close> raises leaves \<^verbatim>\<open>ensure_dataset_exists\<close>.
\<close>

theorem ensure_dataset_exists_race:
  "fst (ensure_dataset_exists env_race cfg0 ''bronze'' ''EU'' w_start)
     = Inl (Exn Conflict ''409 Already Exists'')"
  by (simp add: ensure_dataset_exists_def get_bigquery_client_def env_race_def env_ok_def
        cfg0_def Let_def)

text \<open>
  C7, amended. \<^verbatim>\<open>ensure_dataset_exists\<close> returns without error when the lookup of the
  dataset succeeds, and when the lookup raises \<^verbatim>\<open>NotFound\<close> and the creation succeeds.
  Every exception that \<^verbatim>\<open>create_dataset\<close> raises, also the one caused by a dataset
  created in between, is raised to the caller, as is a failure to read the credentials and
  every exception of the lookup other than \<^verbatim>\<open>NotFound\<close>.
\<close>

theorem ensure_dataset_exists_by_call:
  "(\<forall>e. from_service_account_file ev (credentials_path cfg) = Some e
        \<longrightarrow> ensure_dataset_exists ev cfg dataset_id location w = (Inl e, w))
   \<and> (from_service_account_file ev (credentials_path cfg) = None
        \<and> get_dataset ev (project_id cfg @ ''.'' @ dataset_id) = None
        \<longrightarrow> ensure_dataset_exists ev cfg dataset_id location w
              = (Inr (), logger INFO (Load (DatasetExists (project_id cfg @ ''.'' @ dataset_id))) w))
   \<and> (\<forall>e. from_service_account_file ev (credentials_path cfg) = None
          \<and> get_dataset ev (project_id cfg @ ''.'' @ dataset_id) = Some e
          \<and> cls e = NotFound
          \<and> create_dataset ev (project_id cfg @ ''.'' @ dataset_id) location = None
        \<longrightarrow> fst (ensure_dataset_exists ev cfg dataset_id location w) = Inr ())
   \<and> (\<forall>e e'. from_service_account_file ev (credentials_path cfg) = None
          \<and> get_dataset ev (project_id cfg @ ''.'' @ dataset_id) = Some e
          \<and> cls e = NotFound
          \<and> create_dataset ev (project_id cfg @ ''.'' @ dataset_id) location = Some e'
        \<longrightarrow> fst (ensure_dataset_exists ev cfg dataset_id location w) = Inl e')
   \<and> (\<forall>e. from_service_account_file ev (credentials_path cfg) = None
          \<and> get_dataset ev (project_id cfg @ ''.'' @ dataset_id) = Some e
          \<and> cls e \<noteq> NotFound
        \<longrightarrow> fst (ensure_dataset_exists ev cfg dataset_id location w) = Inl e)"
  by (simp add: ensure_dataset_exists_def get_bigquery_client_def Let_def)

theorem ensure_dataset_exists_by_call_witness:
  "fst (ensure_dataset_exists env_ok cfg0 ''bronze'' ''EU'' w_start) = Inr ()
   \<and> fst (ensure_dataset_exists env_absent cfg0 ''bronze'' ''EU'' w_start) = Inr ()
   \<and> fst (ensure_dataset_exists env_race cfg0 ''bronze'' ''EU'' w_start)
       = Inl (Exn Conflict ''409 Already Exists'')
   \<and> fst (ensure_dataset_exists env_forbidden cfg0 ''bronze'' ''EU'' w_start)
       = Inl (Exn GoogleCloudError ''403 Forbidden'')
   \<and> fst (ensure_dataset_exists env_no_credentials cfg0 ''bronze'' ''EU'' w_start)
       = Inl (Exn FileNotFoundError ''credentials.json'')"
  using ensure_dataset_exists_by_call [of env_ok cfg0 "''bronze''" "''EU''" w_start]
        ensure_dataset_exists_by_call [of env_absent cfg0 "''bronze''" "''EU''" w_start]
        ensure_dataset_exists_by_call [of env_race cfg0 "''bronze''" "''EU''" w_start]
        ensure_dataset_exists_by_call [of env_forbidden cfg0 "''bronze''" "''EU''" w_start]
        ensure_dataset_exists_by_call [of env_no_credentials cfg0 "''bronze''" "''EU''" w_start]
  by (simp add: env_ok_def env_absent_def env_race_def env_forbidden_def
        env_no_credentials_def cfg0_def)

text \<open>
  C6, as the claim states it: \<^verbatim>\<open>convert_to_parquet\<close> returns a report with the row count,
  the column count and the compression ratio \<^verbatim>\<open>1 - compressed_size/original_size\<close>. It
  fails: the function is declared \<^verbatim>\<open>-> None\<close> and has no \<^verbatim>\<open>return\<close>. Two
  conversions of raw files with two and with three rows return the same value, and what the
  first one logs for a columnar file of 4 bytes from a raw file of 8 bytes is the percentage
  50, where the ratio of the claim is 1/2.
\<close>

theorem convert_to_parquet_returns_nothing:
  "fst (convert_to_parquet env_ok ''data/raw/A.tsv.gz'' ''data/parquet/A.parquet'' ''snappy''
          w_cached) = Inr ()
   \<and> fst (convert_to_parquet env_three_rows ''data/raw/A.tsv.gz'' ''data/parquet/A.parquet''
            ''snappy'' w_cached) = Inr ()
   \<and> length (rows df0) = 2 \<and> length (rows df3) = 3
   \<and> new_log w_cached
         (snd (convert_to_parquet env_ok ''data/raw/A.tsv.gz'' ''data/parquet/A.parquet''
                 ''snappy'' w_cached))
       = [(INFO, Transform (Converting ''data/raw/A.tsv.gz'' ''data/parquet/A.parquet'')),
          (INFO, Transform (ReadRows 2 2)),
          (INFO, Transform (ConversionComplete ''data/parquet/A.parquet'' 50))]
   \<and> 1 - rat_of_nat (length ''PAR1'') / rat_of_nat (length ''abcdefgh'') = 1 / 2"
  by (simp add: convert_to_parquet_def convert_body_def env_ok_def env_three_rows_def
        w_cached_def df0_def df3_def logger_def st_size_def new_log_def Let_def)

text \<open>
  C6, amended. For every successfully converted input (the raw file is there and not empty,
  \<^verbatim>\<open>read_csv\<close> and \<^verbatim>\<open>to_parquet\<close> succeed, and the two paths differ)
  \<^verbatim>\<open>convert_to_parquet\<close> returns nothing and logs the row count and the column count of
  the data frame and the size reduction as a percentage,
  \<^verbatim>\<open>(1 - parquet_size / original_size) * 100\<close> (here an exact rational, in the source a
  float), of the columnar file it has written. A missing raw file, a parse error and an
  encoding error are raised to the caller.
\<close>

theorem convert_to_parquet_by_call:
  "(map_of (files w) tsv_path = None
      \<longrightarrow> fst (convert_to_parquet ev tsv_path parquet_path compression w)
            = Inl (Exn FileNotFoundError tsv_path))
   \<and> (\<forall>content e. map_of (files w) tsv_path = Some content \<and> read_csv ev content = Inl e
        \<longrightarrow> fst (convert_to_parquet ev tsv_path parquet_path compression w) = Inl e)
   \<and> (\<forall>content df e. map_of (files w) tsv_path = Some content
          \<and> read_csv ev content = Inr df \<and> to_parquet ev df compression = Inl e
        \<longrightarrow> fst (convert_to_parquet ev tsv_path parquet_path compression w) = Inl e)
   \<and> (\<forall>content df out. map_of (files w) tsv_path = Some content
          \<and> read_csv ev content = Inr df \<and> to_parquet ev df compression = Inr out
          \<and> tsv_path \<noteq> parquet_path \<and> content \<noteq> []
        \<longrightarrow> fst (convert_to_parquet ev tsv_path parquet_path compression w) = Inr ()
            \<and> new_log w (snd (convert_to_parquet ev tsv_path parquet_path compression w))
                = [(INFO, Transform (Converting tsv_path parquet_path)),
                   (INFO, Transform (ReadRows (length (rows df)) (length (columns df)))),
                   (INFO, Transform (ConversionComplete parquet_path
                      ((1 - rat_of_nat (length out) / rat_of_nat (length content)) * 100)))]
            \<and> map_of (files (snd (convert_to_parquet ev tsv_path parquet_path compression w)))
                 parquet_path = Some out)"
  by (simp add: convert_to_parquet_def convert_body_def logger_def st_size_def new_log_def
        Let_def update_conv')

theorem convert_to_parquet_by_call_witness:
  "fst (convert_to_parquet env_ok ''data/raw/A.tsv.gz'' ''data/parquet/A.parquet'' ''snappy''
          w_cached) = Inr ()
   \<and> new_log w_cached
         (snd (convert_to_parquet env_ok ''data/raw/A.tsv.gz'' ''data/parquet/A.parquet''
                 ''snappy'' w_cached))
       = [(INFO, Transform (Converting ''data/raw/A.tsv.gz'' ''data/parquet/A.parquet'')),
          (INFO, Transform (ReadRows 2 2)),
          (INFO, Transform (ConversionComplete ''data/parquet/A.parquet'' 50))]
   \<and> fst (convert_to_parquet env_ok ''data/raw/B.tsv.gz'' ''data/parquet/B.parquet'' ''snappy''
            w_cached) = Inl (Exn FileNotFoundError ''data/raw/B.tsv.gz'')
   \<and> fst (convert_to_parquet env_malformed ''data/raw/A.tsv.gz'' ''data/parquet/A.parquet''
            ''snappy'' w_cached) = Inl (Exn ParserError ''Error tokenizing data'')
   \<and> fst (convert_to_parquet env_no_codec ''data/raw/A.tsv.gz'' ''data/parquet/A.parquet''
            ''snappy'' w_cached) = Inl (Exn OtherException ''snappy not available'')"
  using convert_to_parquet_by_call [of w_cached "''data/raw/A.tsv.gz''" env_ok
          "''data/parquet/A.parquet''" "''snappy''"]
        convert_to_parquet_by_call [of w_cached "''data/raw/B.tsv.gz''" env_ok
          "''data/parquet/B.parquet''" "''snappy''"]
        convert_to_parquet_by_call [of w_cached "''data/raw/A.tsv.gz''" env_malformed
          "''data/parquet/A.parquet''" "''snappy''"]
        convert_to_parquet_by_call [of w_cached "''data/raw/A.tsv.gz''" env_no_codec
          "''data/parquet/A.parquet''" "''snappy''"]
  by (simp add: env_ok_def env_malformed_def env_no_codec_def w_cached_def df0_def)

text \<open>
  C5, as the claim states it: an interrupted download leaves nothing at the destination that
  a later run with \<^verbatim>\<open>force=false\<close> takes for a cache entry. It fails:
  \<^verbatim>\<open>download_file\<close> opens the destination itself and writes the chunks as they come.
  When the connection breaks after the first chunk, the four bytes received stay at the
  destination, and the next \<^verbatim>\<open>process_table\<close> without \<^verbatim>\<open>force_download\<close> makes no
  fetch call and reports the table as processed.
\<close>

theorem partial_download_is_cached:
  "fst (download_file env_cut ''https://datasets.imdbws.com/A.tsv.gz'' ''data/raw/A.tsv.gz''
          8192 w_start) = Inl (Exn RequestException ''Connection broken'')
   \<and> map_of (files (snd (download_file env_cut ''https://datasets.imdbws.com/A.tsv.gz''
                          ''data/raw/A.tsv.gz'' 8192 w_start))) ''data/raw/A.tsv.gz''
       = Some ''abcd''
   \<and> fst (process_table env_ok cfg0 ''A'' False False
            (snd (download_file env_cut ''https://datasets.imdbws.com/A.tsv.gz''
                    ''data/raw/A.tsv.gz'' 8192 w_start))) = Inr True
   \<and> filter is_fetch_call
         (new_log (snd (download_file env_cut ''https://datasets.imdbws.com/A.tsv.gz''
                          ''data/raw/A.tsv.gz'' 8192 w_start))
            (snd (process_table env_ok cfg0 ''A'' False False
                    (snd (download_file env_cut ''https://datasets.imdbws.com/A.tsv.gz''
                            ''data/raw/A.tsv.gz'' 8192 w_start))))) = []"
  by (simp add: process_table_def process_body_def fetch_step_def transform_step_def
        publish_step_def load_step_def download_file_def download_failed_def
        convert_to_parquet_def convert_body_def upload_to_gcs_def upload_body_def
        get_gcs_client_def load_to_bigquery_def load_body_def ensure_dataset_exists_def
        get_bigquery_client_def logger_def exists_def st_size_def path_join_def
        startswith_def get_table_filename_def get_table_id_def get_gcs_path_def sep70_def
        Let_def env_ok_def env_cut_def cfg0_def df0_def w_start_def new_log_def
        is_Exception_def)

text \<open>
  C5, amended. When the request fails, the status is an error or the destination cannot be
  opened, \<^verbatim>\<open>download_file\<close> raises and leaves the local files as they were. When the
  iteration over the body raises after the destination was opened, \<^verbatim>\<open>download_file\<close>
  raises and the chunks received so far are the content of the destination; when the
  iteration ends, the destination holds the whole body. Whatever is at the raw path, with
  \<^verbatim>\<open>force_download\<close> false the fetch step of \<^verbatim>\<open>process_table\<close> skips the download.
\<close>

theorem download_file_by_call:
  "(\<forall>e. http_get ev url = Inl e
        \<longrightarrow> fst (download_file ev url destination chunk_size w) = Inl e
            \<and> files (snd (download_file ev url destination chunk_size w)) = files w)
   \<and> (\<forall>r e. http_get ev url = Inr r \<and> status_error r = Some e
        \<longrightarrow> fst (download_file ev url destination chunk_size w) = Inl e
            \<and> files (snd (download_file ev url destination chunk_size w)) = files w)
   \<and> (\<forall>r e. http_get ev url = Inr r \<and> status_error r = None
          \<and> open_wb ev destination = Some e
        \<longrightarrow> fst (download_file ev url destination chunk_size w) = Inl e
            \<and> files (snd (download_file ev url destination chunk_size w)) = files w)
   \<and> (\<forall>r e. http_get ev url = Inr r \<and> status_error r = None
          \<and> open_wb ev destination = None \<and> body_error r = Some e
        \<longrightarrow> fst (download_file ev url destination chunk_size w) = Inl e
            \<and> map_of (files (snd (download_file ev url destination chunk_size w))) destination
                = Some (concat (body r)))
   \<and> (\<forall>r. http_get ev url = Inr r \<and> status_error r = None
          \<and> open_wb ev destination = None \<and> body_error r = None
        \<longrightarrow> fst (download_file ev url destination chunk_size w) = Inr ()
            \<and> map_of (files (snd (download_file ev url destination chunk_size w))) destination
                = Some (concat (body r)))
   \<and> (exists w (path_join (raw_data_folder cfg) (get_table_filename table))
        \<longrightarrow> fetch_step ev cfg table False w
              = (Inr (), logger INFO (Table (SkippingDownload
                          (path_join (raw_data_folder cfg) (get_table_filename table)))) w))"
proof -
  have wr: "map_of (files (write_chunks chunk_size n destination bs 0
              (w0\<lparr>files := AList.update destination [] fs\<rparr>))) destination
            = Some (concat bs)" for n bs w0 fs
    using write_chunks_files [of "w0\<lparr>files := AList.update destination [] fs\<rparr>"
            destination "[]" chunk_size n bs 0]
    by (simp add: update_conv')
  show ?thesis
    by (auto simp: download_file_def download_failed_def fetch_step_def Let_def wr
             split: option.splits)
qed

theorem download_file_by_call_witness:
  "fst (download_file env_down ''https://datasets.imdbws.com/A.tsv.gz'' ''data/raw/A.tsv.gz''
          8192 w_cached) = Inl (Exn RequestException ''Connection refused'')
   \<and> files (snd (download_file env_down ''https://datasets.imdbws.com/A.tsv.gz''
                    ''data/raw/A.tsv.gz'' 8192 w_cached)) = files w_cached
   \<and> fst (download_file env_not_found ''https://datasets.imdbws.com/A.tsv.gz''
            ''data/raw/A.tsv.gz'' 8192 w_cached) = Inl (Exn RequestException ''404 Not Found'')
   \<and> fst (download_file env_read_only ''https://datasets.imdbws.com/A.tsv.gz''
            ''data/raw/A.tsv.gz'' 8192 w_cached) = Inl (Exn IOError ''Read-only file system'')
   \<and> map_of (files (snd (download_file env_cut ''https://datasets.imdbws.com/A.tsv.gz''
                          ''data/raw/A.tsv.gz'' 8192 w_start))) ''data/raw/A.tsv.gz''
       = Some ''abcd''
   \<and> map_of (files (snd (download_file env_ok ''https://datasets.imdbws.com/A.tsv.gz''
                          ''data/raw/A.tsv.gz'' 8192 w_start))) ''data/raw/A.tsv.gz''
       = Some ''abcdefgh''
   \<and> fst (fetch_step env_down cfg0 ''A'' False w_cached) = Inr ()"
  using download_file_by_call [of env_down "''https://datasets.imdbws.com/A.tsv.gz''"
          "''data/raw/A.tsv.gz''" 8192 w_cached cfg0 "''A''"]
        download_file_by_call [of env_not_found "''https://datasets.imdbws.com/A.tsv.gz''"
          "''data/raw/A.tsv.gz''" 8192 w_cached cfg0 "''A''"]
        download_file_by_call [of env_read_only "''https://datasets.imdbws.com/A.tsv.gz''"
          "''data/raw/A.tsv.gz''" 8192 w_cached cfg0 "''A''"]
        download_file_by_call [of env_cut "''https://datasets.imdbws.com/A.tsv.gz''"
          "''data/raw/A.tsv.gz''" 8192 w_start cfg0 "''A''"]
        download_file_by_call [of env_ok "''https://datasets.imdbws.com/A.tsv.gz''"
          "''data/raw/A.tsv.gz''" 8192 w_start cfg0 "''A''"]
  by (simp add: env_ok_def env_down_def env_not_found_def env_read_only_def env_cut_def
        w_cached_def cfg0_def exists_def path_join_def startswith_def get_table_filename_def)

text \<open>
  C10. \<^verbatim>\<open>run_pipeline\<close> called with \<^verbatim>\<open>tables=None\<close> or with the empty list does
  what it does for the catalogue of seven tables of \<^verbatim>\<open>Config.tables\<close>. When its loop
  ends with a Run Result, the keys of the result are, in order, the tables that
  \<^verbatim>\<open>process_table\<close> was started for, and they are the whole catalogue, unless
  \<^verbatim>\<open>fail_fast\<close> is set and the run stopped at a table that failed: then they are the
  catalogue up to that table, which is the last entry and false.
\<close>

theorem default_catalogue:
  "run_pipeline evs cfg None f s ff c w = run_pipeline evs cfg (Some []) f s ff c w
   \<and> run_pipeline evs cfg None f s ff c w
       = run_pipeline evs cfg (Some Config_tables) f s ff c w
   \<and> length Config_tables = 7
   \<and> (\<forall>rs w'. run_results evs cfg None f s ff w = (Inr rs, w')
        \<longrightarrow> map fst rs = invoked (new_log w w')
            \<and> (map fst rs = Config_tables
                 \<or> ff \<and> (\<exists>k < 7. map fst rs = take (Suc k) Config_tables)
                      \<and> \<not> snd (last rs)))"
proof -
  have e1: "run_pipeline evs cfg None f s ff c w = run_pipeline evs cfg (Some []) f s ff c w"
    by (simp add: run_pipeline_def run_results_default(1) [symmetric])
  have e2: "run_pipeline evs cfg None f s ff c w
       = run_pipeline evs cfg (Some Config_tables) f s ff c w"
    by (simp add: run_pipeline_def run_results_default(2) [symmetric])
  have l7: "length Config_tables = 7" by (simp add: Config_tables_def)
  have r: "map fst rs = invoked (new_log w w')
            \<and> (map fst rs = Config_tables
                 \<or> ff \<and> (\<exists>k < 7. map fst rs = take (Suc k) Config_tables)
                      \<and> \<not> snd (last rs))"
    if h: "run_results evs cfg None f s ff w = (Inr rs, w')" for rs w'
  proof -
    obtain xs where xs: "new_log w w' = xs"
      "rs = assign_all (outcomes xs) []"
      "map fst (outcomes xs) = invoked xs"
      "invoked xs = Config_tables
         \<or> ff \<and> (\<exists>k < length Config_tables.
                   invoked xs = take (Suc k) Config_tables
                   \<and> outcomes xs \<noteq> [] \<and> \<not> snd (last (outcomes xs)))"
      using run_results_returns [OF h] unfolding tables_or_default_simps by metis
    have d: "distinct (invoked xs)"
      using xs(4) distinct_Config_tables by (auto intro: distinct_take)
    have rs: "rs = outcomes xs"
      unfolding xs(2) using assign_all_distinct [of "[]" "outcomes xs"] d xs(3) by simp
    show ?thesis
      using xs(4) unfolding rs xs(1) xs(3) l7 by blast
  qed
  from e1 e2 l7 r show ?thesis by blast
qed

theorem default_catalogue_witness:
  "fst (run_results (\<lambda>i. env_down) cfg0 None False False False w_start)
     = Inr (map (\<lambda>t. (t, False)) Config_tables)
   \<and> invoked (new_log w_start
                (snd (run_results (\<lambda>i. env_down) cfg0 None False False False w_start)))
       = Config_tables
   \<and> fst (run_results (\<lambda>i. env_down) cfg0 (Some []) False False True w_start)
       = Inr [(''name.basics'', False)]"
proof -
  have e: "fst (run_results (\<lambda>i. env_down) cfg0 None False False False w_start)
     = Inr (map (\<lambda>t. (t, False)) Config_tables)"
    by (simp add: model_defs env_down_def env_ok_def cfg0_def w_start_def Config_tables_def)
  have e': "fst (run_results (\<lambda>i. env_down) cfg0 None False False True w_start)
       = Inr [(''name.basics'', False)]"
    by (simp add: model_defs env_down_def env_ok_def cfg0_def w_start_def Config_tables_def)
  have p: "run_results (\<lambda>i. env_down) cfg0 None False False False w_start
     = (Inr (map (\<lambda>t. (t, False)) Config_tables),
        snd (run_results (\<lambda>i. env_down) cfg0 None False False False w_start))"
    using e by (simp add: prod_eq_iff)
  have m: "map fst (map (\<lambda>t. (t, False)) Config_tables) = Config_tables"
    by (simp add: comp_def)
  from default_catalogue [of "\<lambda>i. env_down" cfg0 False False False False w_start] p m
  have "invoked (new_log w_start
                (snd (run_results (\<lambda>i. env_down) cfg0 None False False False w_start)))
       = Config_tables" by metis
  moreover from default_catalogue [of "\<lambda>i. env_down" cfg0 False False True False w_start] e'
  have "fst (run_results (\<lambda>i. env_down) cfg0 (Some []) False False True w_start)
       = Inr [(''name.basics'', False)]"
    by (simp add: run_results_default(1) [symmetric])
  ultimately show ?thesis using e by simp
qed

text \<open>
  C1. When the loop of \<^verbatim>\<open>run_pipeline\<close> ends with a Run Result, the result is not empty
  (at least one table was attempted), it holds the verdicts that the invocations of
  \<^verbatim>\<open>process_table\<close> logged, and \<^verbatim>\<open>run_pipeline\<close> returns 0 when every entry is a
  success, 1 when an entry is a success and an entry is a failure, and 2 when no entry is a
  success. For two different tables A and B without \<^verbatim>\<open>fail_fast\<close>, in terms of what the
  two calls of \<^verbatim>\<open>process_table\<close> return: 0 when both return true, 1 when one does, 2
  when none does. \<^verbatim>\<open>main\<close> exits with 2 on a configuration error, before any table is
  processed, and otherwise (when it is not a dry run) with the value of
  \<^verbatim>\<open>run_pipeline\<close>.
\<close>

theorem exit_status:
  "(\<forall>rs w1. run_results evs cfg tables f s ff w = (Inr rs, w1)
      \<longrightarrow> rs = assign_all (outcomes (new_log w w1)) [] \<and> rs \<noteq> []
          \<and> fst (run_pipeline evs cfg tables f s ff c w)
              = Inr (if \<forall>(t, b) \<in> set rs. b then 0
                     else if \<exists>(t, b) \<in> set rs. b then 1 else 2))
   \<and> (\<forall>A B a wa b wb.
         A \<noteq> B
         \<and> process_table (evs 1) cfg A f s
              (logger INFO (Run (Starting 1 2 A)) (run_banner cfg 2 f w)) = (Inr a, wa)
         \<and> process_table (evs 2) cfg B f s (logger INFO (Run (Starting 2 2 B)) wa)
              = (Inr b, wb)
      \<longrightarrow> fst (run_pipeline evs cfg (Some [A, B]) f s False c w)
            = Inr (if a \<and> b then 0 else if a \<or> b then 1 else 2))
   \<and> (config_error cfg w
      \<longrightarrow> fst (main evs cfg f s names ff c d v w) = Inr 2
          \<and> invoked (new_log w (snd (main evs cfg f s names ff c d v w))) = [])
   \<and> (\<not> config_error cfg w \<and> \<not> d
      \<longrightarrow> main evs cfg f s names ff c d v w
            = run_pipeline evs cfg (if names \<noteq> [] then Some names else None) f s ff c
                (if v then w\<lparr>debug := True\<rparr> else w))"
proof -
  have p1: "rs = assign_all (outcomes (new_log w w1)) [] \<and> rs \<noteq> []
          \<and> fst (run_pipeline evs cfg tables f s ff c w)
              = Inr (if \<forall>(t, b) \<in> set rs. b then 0
                     else if \<exists>(t, b) \<in> set rs. b then 1 else 2)"
    if h: "run_results evs cfg tables f s ff w = (Inr rs, w1)" for rs w1
  proof -
    obtain xs where xs: "new_log w w1 = xs" "rs = assign_all (outcomes xs) []" "rs \<noteq> []"
      using run_results_returns [OF h] by metis
    have "fst (run_pipeline evs cfg tables f s ff c w)
            = Inr (if map fst (filter (\<lambda>(t, success). \<not> success) rs) = [] then 0
                   else if map fst (filter snd rs) \<noteq> [] then 1 else 2)"
      by (simp add: run_pipeline_def h Let_def)
    then show ?thesis using xs exit_code_cases [of rs] by simp
  qed
  have p2: "fst (run_pipeline evs cfg (Some [A, B]) f s False c w)
            = Inr (if a \<and> b then 0 else if a \<or> b then 1 else 2)"
    if h: "A \<noteq> B"
      "process_table (evs 1) cfg A f s
              (logger INFO (Run (Starting 1 2 A)) (run_banner cfg 2 f w)) = (Inr a, wa)"
      "process_table (evs 2) cfg B f s (logger INFO (Run (Starting 2 2 B)) wa) = (Inr b, wb)"
    for A B a wa b wb
  proof -
    have "run_results evs cfg (Some [A, B]) f s False w = (Inr [(A, a), (B, b)], wb)"
      using h by (simp add: run_results_def tables_or_default_def numeral_2_eq_2)
    then show ?thesis using h(1)
      by (cases a; cases b) (simp_all add: run_pipeline_def Let_def)
  qed
  have p3: "fst (main evs cfg f s names ff c d v w) = Inr 2
          \<and> invoked (new_log w (snd (main evs cfg f s names ff c d v w))) = []"
    if h: "config_error cfg w"
  proof -
    obtain e where e: "validate cfg w = Inl e" using h validate_iff by blast
    then have e': "validate cfg (if v then w\<lparr>debug := True\<rparr> else w) = Inl e"
      by (simp add: validate_debug)
    show ?thesis
      by (simp add: main_def Let_def e' new_log_def logger_def del: if_cancel)
  qed
  have p4: "main evs cfg f s names ff c d v w
            = run_pipeline evs cfg (if names \<noteq> [] then Some names else None) f s ff c
                (if v then w\<lparr>debug := True\<rparr> else w)"
    if h: "\<not> config_error cfg w \<and> \<not> d"
  proof -
    have "\<not> (\<exists>e. validate cfg w = Inl e)" using h validate_iff by blast
    then have "validate cfg w = Inr ()" by (cases "validate cfg w") auto
    then have e': "validate cfg (if v then w\<lparr>debug := True\<rparr> else w) = Inr ()"
      by (simp add: validate_debug)
    show ?thesis using h by (simp add: main_def Let_def e')
  qed
  show ?thesis
    apply (intro conjI allI impI)
    subgoal for rs w1 using p1 by blast
    subgoal for rs w1 using p1 by blast
    subgoal for rs w1 using p1 by blast
    subgoal for A B a wa b wb using p2 [of A B a wa b wb] by blast
    subgoal using p3 by blast
    subgoal using p3 by blast
    subgoal using p4 by blast
    done
qed

theorem exit_status_witness:
  "fst (run_pipeline (\<lambda>i. env_ok) cfg0 (Some [''A'']) False True False False w_cached) = Inr 0
   \<and> fst (run_pipeline evs_mixed cfg0 (Some [''A'', ''B'']) False True False False w_cached)
       = Inr 1
   \<and> fst (run_pipeline (\<lambda>i. env_down) cfg0 (Some [''A'', ''B'']) True True False False
            w_cached) = Inr 2
   \<and> fst (main (\<lambda>i. env_ok) cfg_unset False True [] False False False False w_cached) = Inr 2"
proof -
  have r0: "fst (run_results (\<lambda>i. env_ok) cfg0 (Some [''A'']) False True False w_cached)
              = Inr [(''A'', True)]"
    by (simp add: model_defs env_ok_def cfg0_def w_cached_def)
  have r2: "fst (run_results (\<lambda>i. env_down) cfg0 (Some [''A'', ''B'']) True True False w_cached)
              = Inr [(''A'', False), (''B'', False)]"
    by (simp add: model_defs env_down_def env_ok_def cfg0_def w_cached_def)
  define wa where "wa = snd (process_table (evs_mixed 1) cfg0 ''A'' False True
              (logger INFO (Run (Starting 1 2 ''A'')) (run_banner cfg0 2 False w_cached)))"
  define wb where "wb = snd (process_table (evs_mixed 2) cfg0 ''B'' False True
              (logger INFO (Run (Starting 2 2 ''B'')) wa))"
  have a: "process_table (evs_mixed 1) cfg0 ''A'' False True
              (logger INFO (Run (Starting 1 2 ''A'')) (run_banner cfg0 2 False w_cached))
            = (Inr True, wa)"
    unfolding wa_def
    by (simp add: prod_eq_iff model_defs evs_mixed_def env_ok_def cfg0_def w_cached_def)
  have b: "process_table (evs_mixed 2) cfg0 ''B'' False True
              (logger INFO (Run (Starting 2 2 ''B'')) wa) = (Inr False, wb)"
    unfolding wb_def wa_def
    by (simp add: prod_eq_iff model_defs evs_mixed_def env_ok_def env_down_def cfg0_def
          w_cached_def)
  have c: "config_error cfg_unset w_cached"
    by (simp add: config_error_def cfg_unset_def cfg0_def startswith_def)
  have "fst (run_pipeline (\<lambda>i. env_ok) cfg0 (Some [''A'']) False True False False w_cached)
          = Inr 0"
    using exit_status [of "\<lambda>i. env_ok" cfg0 "Some [''A'']" False True False w_cached False]
      r0 by (simp add: prod_eq_iff)
  moreover
  have "fst (run_pipeline evs_mixed cfg0 (Some [''A'', ''B'']) False True False False w_cached)
          = Inr 1"
    using exit_status [of evs_mixed cfg0 "Some [''A'', ''B'']" False True False w_cached False,
            THEN conjunct2, THEN conjunct1, rule_format, of "''A''" "''B''" True wa False wb]
      a b by simp
  moreover
  have "fst (run_pipeline (\<lambda>i. env_down) cfg0 (Some [''A'', ''B'']) True True False False
            w_cached) = Inr 2"
    using exit_status [of "\<lambda>i. env_down" cfg0 "Some [''A'', ''B'']" True True False w_cached
            False] r2 by (simp add: prod_eq_iff)
  moreover
  have "fst (main (\<lambda>i. env_ok) cfg_unset False True [] False False False False w_cached)
          = Inr 2"
    using exit_status [of "\<lambda>i. env_ok" cfg_unset "None" False True False w_cached False "[]"
            False False] c by simp
  ultimately show ?thesis by simp
qed

text \<open>
  C2. When the loop of \<^verbatim>\<open>run_pipeline\<close> ends with a Run Result: every invocation of
  \<^verbatim>\<open>process_table\<close> that the run started has logged its verdict, the Run Result is the
  dictionary obtained by storing these verdicts in order, its keys are the tables that were
  invoked, every entry is the verdict of an invocation of that table, and when no table was
  invoked twice the Run Result is the list of the verdicts. With \<^verbatim>\<open>fail_fast\<close>, when
  \<^verbatim>\<open>process_table\<close> returns false for the first table A of the list, the Run Result is
  A alone, nothing is invoked but A, and the run's world is the one that
  \<^verbatim>\<open>process_table\<close> left for A with the stop message logged: no stage is called for a
  later table.
\<close>

theorem run_result_records_invocations:
  "(\<forall>rs w'. run_results evs cfg tables f s ff w = (Inr rs, w')
      \<longrightarrow> map fst (outcomes (new_log w w')) = invoked (new_log w w')
          \<and> rs = assign_all (outcomes (new_log w w')) []
          \<and> fst ` set rs = set (invoked (new_log w w'))
          \<and> (\<forall>t b. map_of rs t = Some b \<longrightarrow> (t, b) \<in> set (outcomes (new_log w w')))
          \<and> (distinct (invoked (new_log w w')) \<longrightarrow> rs = outcomes (new_log w w')))
   \<and> (\<forall>A rest wA.
         process_table (evs 1) cfg A f s
           (logger INFO (Run (Starting 1 (Suc (length rest)) A))
              (run_banner cfg (Suc (length rest)) f w)) = (Inr False, wA)
      \<longrightarrow> run_results evs cfg (Some (A # rest)) f s True w
            = (Inr [(A, False)], logger ERROR (Run StoppingFailFast) wA)
          \<and> invoked (new_log w (logger ERROR (Run StoppingFailFast) wA)) = [A])"
proof -
  have p1: "map fst (outcomes (new_log w w')) = invoked (new_log w w')
          \<and> rs = assign_all (outcomes (new_log w w')) []
          \<and> fst ` set rs = set (invoked (new_log w w'))
          \<and> (\<forall>t b. map_of rs t = Some b \<longrightarrow> (t, b) \<in> set (outcomes (new_log w w')))
          \<and> (distinct (invoked (new_log w w')) \<longrightarrow> rs = outcomes (new_log w w'))"
    if h: "run_results evs cfg tables f s ff w = (Inr rs, w')" for rs w'
  proof -
    obtain xs where xs: "new_log w w' = xs" "rs = assign_all (outcomes xs) []"
      "map fst (outcomes xs) = invoked xs"
      using run_results_returns [OF h] by metis
    have k: "fst ` set rs = set (invoked xs)"
      unfolding xs(2) assign_all_keys xs(3) [symmetric] by simp
    have l: "\<forall>t b. map_of rs t = Some b \<longrightarrow> (t, b) \<in> set (outcomes xs)"
      unfolding xs(2) using assign_all_lookup [of "outcomes xs" "[]"] by auto
    have d: "distinct (invoked xs) \<longrightarrow> rs = outcomes xs"
      unfolding xs(2) using assign_all_distinct [of "[]" "outcomes xs"] xs(3) by simp
    show ?thesis unfolding xs(1) using xs(2,3) k l d by blast
  qed
  have p2: "run_results evs cfg (Some (A # rest)) f s True w
            = (Inr [(A, False)], logger ERROR (Run StoppingFailFast) wA)
          \<and> invoked (new_log w (logger ERROR (Run StoppingFailFast) wA)) = [A]"
    if h: "process_table (evs 1) cfg A f s
           (logger INFO (Run (Starting 1 (Suc (length rest)) A))
              (run_banner cfg (Suc (length rest)) f w)) = (Inr False, wA)" for A rest wA
  proof -
    define w0 where "w0 = logger INFO (Run (Starting 1 (Suc (length rest)) A))
              (run_banner cfg (Suc (length rest)) f w)"
    have r: "run_results evs cfg (Some (A # rest)) f s True w
            = (Inr [(A, False)], logger ERROR (Run StoppingFailFast) wA)"
      using h by (simp add: run_results_def tables_or_default_def)
    obtain ys where ys: "log wA = log w0 @ ys" "invoked ys = [A]"
      using process_table_trace [of "evs 1" cfg A f s w0] h unfolding w0_def by auto
    define hs where "hs = map (Pair INFO)
       [sep70, Text ''IMDB Data Ingestion Pipeline'', sep70,
        Run (Project (project_id cfg)), Run (Bucket (bucket_name cfg)),
        Run (Dataset (bronze_dataset cfg)), Run (TablesToProcess (Suc (length rest))),
        Run (ForceDownload f), sep70] @ [(INFO, Run (Starting 1 (Suc (length rest)) A))]"
    have l0: "log w0 = log w @ hs"
      unfolding w0_def hs_def by (simp add: log_logger run_banner_log)
    have ih: "invoked hs = []" by (simp add: hs_def sep70_def)
    have L: "log (logger ERROR (Run StoppingFailFast) wA)
               = log w @ (hs @ ys @ [(ERROR, Run StoppingFailFast)])"
      by (simp add: log_logger ys(1) l0)
    have N: "new_log w (logger ERROR (Run StoppingFailFast) wA)
               = hs @ ys @ [(ERROR, Run StoppingFailFast)]"
      by (rule new_log_append [OF L])
    have "invoked (new_log w (logger ERROR (Run StoppingFailFast) wA)) = [A]"
      unfolding N by (simp add: ih ys(2))
    with r show ?thesis by simp
  qed
  show ?thesis
    apply (intro conjI allI impI)
    subgoal for rs w' using p1 by blast
    subgoal for rs w' using p1 by blast
    subgoal for rs w' using p1 by blast
    subgoal for rs w' t b using p1 [of rs w'] by blast
    subgoal for rs w' using p1 by blast
    subgoal for A rest wA using p2 by blast
    subgoal for A rest wA using p2 by blast
    done
qed

theorem run_result_records_invocations_witness:
  "fst (run_results (\<lambda>i. env_upload_fails) cfg0 (Some [''A'', ''B'', ''C'']) False True True
          w_cached) = Inr [(''A'', False)]
   \<and> invoked (new_log w_cached
         (snd (run_results (\<lambda>i. env_upload_fails) cfg0 (Some [''A'', ''B'', ''C'']) False True
                 True w_cached))) = [''A'']
   \<and> fst (run_results evs_mixed cfg0 (Some [''A'', ''B'']) False True False w_cached)
       = Inr [(''A'', True), (''B'', False)]
   \<and> outcomes (new_log w_cached
         (snd (run_results evs_mixed cfg0 (Some [''A'', ''B'']) False True False w_cached)))
       = [(''A'', True), (''B'', False)]"
proof -
  define wA where "wA = snd (process_table env_upload_fails cfg0 ''A'' False True
           (logger INFO (Run (Starting 1 (Suc (length [''B'', ''C''])) ''A''))
              (run_banner cfg0 (Suc (length [''B'', ''C''])) False w_cached)))"
  have a: "process_table env_upload_fails cfg0 ''A'' False True
           (logger INFO (Run (Starting 1 (Suc (length [''B'', ''C''])) ''A''))
              (run_banner cfg0 (Suc (length [''B'', ''C''])) False w_cached))
           = (Inr False, wA)"
    unfolding wA_def
    by (simp add: prod_eq_iff model_defs env_upload_fails_def env_ok_def cfg0_def w_cached_def)
  note ff = run_result_records_invocations
    [of "\<lambda>i. env_upload_fails" cfg0 "Some [''A'', ''B'', ''C'']" False True True w_cached,
     THEN conjunct2, rule_format, of "''A''" "[''B'', ''C'']" wA, OF a]
  define w' where "w' = snd (run_results evs_mixed cfg0 (Some [''A'', ''B'']) False True False
                               w_cached)"
  have r1: "fst (run_results evs_mixed cfg0 (Some [''A'', ''B'']) False True False w_cached)
             = Inr [(''A'', True), (''B'', False)]"
    by (simp add: model_defs evs_mixed_def env_ok_def env_down_def cfg0_def w_cached_def)
  have r: "run_results evs_mixed cfg0 (Some [''A'', ''B'']) False True False w_cached
             = (Inr [(''A'', True), (''B'', False)], w')"
    using r1 unfolding w'_def by (simp add: prod_eq_iff)
  have d: "distinct (invoked (new_log w_cached w'))"
    unfolding w'_def
    by (simp add: model_defs evs_mixed_def env_ok_def env_down_def cfg0_def w_cached_def)
  note rec = run_result_records_invocations
    [of evs_mixed cfg0 "Some [''A'', ''B'']" False True False w_cached,
     THEN conjunct1, rule_format, OF r]
  from rec have "distinct (invoked (new_log w_cached w'))
                   \<longrightarrow> [(''A'', True), (''B'', False)] = outcomes (new_log w_cached w')"
    by (elim conjE)
  from this [THEN mp, OF d]
  have o: "outcomes (new_log w_cached w') = [(''A'', True), (''B'', False)]"
    by (rule sym)
  show ?thesis
    using ff r1 o unfolding w'_def by simp
qed

text \<open>
  C4. When the loop of \<^verbatim>\<open>run_pipeline\<close> ends with a Run Result: if an entry of the
  result is a failure, or \<^verbatim>\<open>cleanup\<close> is false, \<^verbatim>\<open>run_pipeline\<close> leaves the local
  files as the loop left them, logs no message of \<^verbatim>\<open>cleanup_local_files\<close>, and every
  file that was there before the run is still there; if every entry is a success and
  \<^verbatim>\<open>cleanup\<close> is true, \<^verbatim>\<open>cleanup_local_files\<close> is called and the files left are
  those that the loop left, without the \<^verbatim>\<open>*.tsv.gz\<close> files of the raw folder.
\<close>

theorem cleanup_guard:
  "\<forall>rs w1. run_results evs cfg tables f s ff w = (Inr rs, w1)
      \<longrightarrow> ((\<exists>t. (t, False) \<in> set rs) \<or> \<not> c
             \<longrightarrow> files (snd (run_pipeline evs cfg tables f s ff c w)) = files w1
                 \<and> filter is_cleanup_msg
                       (new_log w (snd (run_pipeline evs cfg tables f s ff c w))) = []
                 \<and> set (paths w) \<subseteq> set (paths (snd (run_pipeline evs cfg tables f s ff c w))))
          \<and> ((\<forall>(t, b) \<in> set rs. b) \<and> c
             \<longrightarrow> filter is_cleanup_msg
                       (new_log w (snd (run_pipeline evs cfg tables f s ff c w))) \<noteq> []
                 \<and> paths (snd (run_pipeline evs cfg tables f s ff c w))
                     = filter (\<lambda>p. p \<notin> set (glob w1 (raw_data_folder cfg) ''.tsv.gz''))
                         (paths w1))"
proof (intro allI impI)
  fix rs w1
  assume h: "run_results evs cfg tables f s ff w = (Inr rs, w1)"
  let ?RP = "run_pipeline evs cfg tables f s ff c w"
  obtain xs where xs: "log w1 = log w @ xs" "filter is_cleanup_msg xs = []"
    "set (paths w) \<subseteq> set (paths w1)"
    using run_results_returns [OF h] by metis
  obtain zs where zs: "log (run_summary rs w1) = log w1 @ zs" "filter is_cleanup_msg zs = []"
    using run_summary_log by blast
  define w2 where "w2 = run_summary rs w1"
  have f2: "files w2 = files w1" by (simp add: w2_def)
  have l2: "log w2 = log w @ (xs @ zs)" by (simp add: w2_def zs xs)
  have off: "files (snd ?RP) = files w1
                 \<and> filter is_cleanup_msg (new_log w (snd ?RP)) = []
                 \<and> set (paths w) \<subseteq> set (paths (snd ?RP))"
    if n: "(\<exists>t. (t, False) \<in> set rs) \<or> \<not> c"
  proof -
    have g: "\<not> (c \<and> map fst (filter (\<lambda>(t, success). \<not> success) rs) = [])"
      using n unfolding failed_empty by auto
    obtain m where m: "snd ?RP = logger (fst m) (Run (snd m)) w2"
      "snd ?RP = logger (fst m) (Run (snd m)) w2"
      using g
      by (cases "map fst (filter (\<lambda>(t, success). \<not> success) rs) = []";
          cases "map fst (filter snd rs) \<noteq> []")
         (auto simp: run_pipeline_def h Let_def w2_def [symmetric]
               intro: that [of "(INFO, AllTablesProcessed)"]
                      that [of "(WARNING, CompletedWithFailures)"]
                      that [of "(ERROR, FailedCompletely)"])
    have L: "log (snd ?RP) = log w @ (xs @ zs @ [(fst m, Run (snd m))])"
      by (simp add: m(1) log_logger l2)
    have N: "new_log w (snd ?RP) = xs @ zs @ [(fst m, Run (snd m))]"
      by (rule new_log_append [OF L])
    have "paths (snd ?RP) = paths w1" by (simp add: m(1) paths_def f2)
    then show ?thesis
      unfolding N using xs(2,3) zs(2) by (simp add: m(1) f2)
  qed
  have on: "filter is_cleanup_msg (new_log w (snd ?RP)) \<noteq> []
                 \<and> paths (snd ?RP)
                     = filter (\<lambda>p. p \<notin> set (glob w1 (raw_data_folder cfg) ''.tsv.gz''))
                         (paths w1)"
    if y: "(\<forall>(t, b) \<in> set rs. b) \<and> c"
  proof -
    have g: "c" "map fst (filter (\<lambda>(t, success). \<not> success) rs) = []"
      using y unfolding failed_empty by auto
    define w3 where "w3 = logger INFO (Run CleaningUpLocalFiles) w2"
    have R: "snd ?RP = logger INFO (Run AllTablesProcessed) (cleanup_local_files cfg True w3)"
      using g by (simp add: run_pipeline_def h Let_def w2_def [symmetric] w3_def)
    have f3: "files w3 = files w1" by (simp add: w3_def f2)
    have l3: "log w3 = log w @ (xs @ zs @ [(INFO, Run CleaningUpLocalFiles)])"
      by (simp add: w3_def log_logger l2)
    have gl: "glob w3 (raw_data_folder cfg) ''.tsv.gz'' = glob w1 (raw_data_folder cfg) ''.tsv.gz''"
      by (rule glob_files [OF f3])
    have L: "log (snd ?RP) = log w @ (xs @ zs @ [(INFO, Run CleaningUpLocalFiles)]
               @ (INFO, Cleanup CleaningUp)
                  # map (\<lambda>p. (INFO, Cleanup (Deleted p)))
                      (glob w1 (raw_data_folder cfg) ''.tsv.gz'')
               @ [(INFO, Cleanup CleanupComplete)] @ [(INFO, Run AllTablesProcessed)])"
      by (simp add: R log_logger cleanup_keep_parquet(1) gl l3)
    have P: "paths (snd ?RP)
                     = filter (\<lambda>p. p \<notin> set (glob w1 (raw_data_folder cfg) ''.tsv.gz''))
                         (paths w1)"
      by (simp add: R cleanup_keep_parquet(2) gl) (simp add: paths_def f3)
    show ?thesis
      unfolding new_log_append [OF L] using P by simp
  qed
  show "((\<exists>t. (t, False) \<in> set rs) \<or> \<not> c
             \<longrightarrow> files (snd ?RP) = files w1
                 \<and> filter is_cleanup_msg (new_log w (snd ?RP)) = []
                 \<and> set (paths w) \<subseteq> set (paths (snd ?RP)))
          \<and> ((\<forall>(t, b) \<in> set rs. b) \<and> c
             \<longrightarrow> filter is_cleanup_msg (new_log w (snd ?RP)) \<noteq> []
                 \<and> paths (snd ?RP)
                     = filter (\<lambda>p. p \<notin> set (glob w1 (raw_data_folder cfg) ''.tsv.gz''))
                         (paths w1))"
    using off on by blast
qed

theorem cleanup_guard_witness:
  "paths (snd (run_pipeline (\<lambda>i. env_ok) cfg0 (Some [''A'']) False True False True w_cached))
     = [''credentials.json'', ''data/parquet/A.parquet'']
   \<and> filter is_cleanup_msg
         (new_log w_cached
            (snd (run_pipeline (\<lambda>i. env_ok) cfg0 (Some [''A'']) False True False True
                    w_cached))) \<noteq> []
   \<and> files (snd (run_pipeline evs_mixed cfg0 (Some [''A'', ''B'']) False True False True
                    w_cached)) = files w_cached
   \<and> filter is_cleanup_msg
         (new_log w_cached
            (snd (run_pipeline evs_mixed cfg0 (Some [''A'', ''B'']) False True False True
                    w_cached))) = []"
proof -
  define w1 where "w1 = snd (run_results (\<lambda>i. env_ok) cfg0 (Some [''A'']) False True False
                               w_cached)"
  have r1: "run_results (\<lambda>i. env_ok) cfg0 (Some [''A'']) False True False w_cached
              = (Inr [(''A'', True)], w1)"
    unfolding w1_def
    by (simp add: prod_eq_iff model_defs env_ok_def cfg0_def w_cached_def)
  have f1: "files w1 = files w_cached"
    unfolding w1_def by (simp add: model_defs env_ok_def cfg0_def w_cached_def)
  have g1: "glob w1 (raw_data_folder cfg0) ''.tsv.gz'' = [''data/raw/A.tsv.gz'']"
    unfolding glob_files [OF f1]
    by (simp add: glob_def w_cached_def cfg0_def startswith_def endswith_def)
  have p1: "paths w1
              = [''credentials.json'', ''data/raw/A.tsv.gz'', ''data/parquet/A.parquet'']"
    by (simp add: paths_def f1 w_cached_def)
  note on = cleanup_guard [of "\<lambda>i. env_ok" cfg0 "Some [''A'']" False True False w_cached True,
                 rule_format, OF r1, THEN conjunct2]
  define w2 where "w2 = snd (run_results evs_mixed cfg0 (Some [''A'', ''B'']) False True False
                               w_cached)"
  have r2: "run_results evs_mixed cfg0 (Some [''A'', ''B'']) False True False w_cached
              = (Inr [(''A'', True), (''B'', False)], w2)"
    unfolding w2_def
    by (simp add: prod_eq_iff model_defs evs_mixed_def env_ok_def env_down_def cfg0_def
          w_cached_def)
  have f2: "files w2 = files w_cached"
    unfolding w2_def
    by (simp add: model_defs evs_mixed_def env_ok_def env_down_def cfg0_def w_cached_def)
  note off = cleanup_guard [of evs_mixed cfg0 "Some [''A'', ''B'']" False True False w_cached
                  True, rule_format, OF r2, THEN conjunct1]
  show ?thesis
    using on off by (simp add: g1 p1 f2)
qed

text \<open>
  C8, as the claim states it: \<^verbatim>\<open>process_table\<close> never propagates an exception. It fails
  when a stage raises an exception that does not derive from \<^verbatim>\<open>Exception\<close>: the
  handler is \<^verbatim>\<open>except Exception\<close>, and a \<^verbatim>\<open>KeyboardInterrupt\<close> raised while the
  file is downloaded leaves \<^verbatim>\<open>process_table\<close>.
\<close>

theorem process_table_interrupted:
  "fst (process_table env_interrupted cfg0 ''A'' False False w_start)
     = Inl (Exn KeyboardInterrupt ''Ctrl-C'')"
  by (simp add: model_defs env_interrupted_def env_ok_def cfg0_def w_start_def)

text \<open>
  C8, amended. For every table and flag combination, whatever the four stage calls do
  (\<^verbatim>\<open>download_file\<close>, \<^verbatim>\<open>convert_to_parquet\<close>, \<^verbatim>\<open>upload_to_gcs\<close>,
  \<^verbatim>\<open>load_to_bigquery\<close>): when the first stage call that raises raises \<open>e\<close> and \<open>e\<close>
  derives from \<^verbatim>\<open>Exception\<close>, \<^verbatim>\<open>process_table\<close> logs the failure and returns
  \<^verbatim>\<open>False\<close>, and when \<open>e\<close> does not derive from \<^verbatim>\<open>Exception\<close>, \<open>e\<close> leaves
  \<^verbatim>\<open>process_table\<close>; when no stage call raises, it returns \<^verbatim>\<open>True\<close>. No exception
  that derives from \<^verbatim>\<open>Exception\<close> leaves \<^verbatim>\<open>process_table\<close>. When the configuration
  is rejected, \<^verbatim>\<open>main\<close> exits with status 2 and no table has been processed. A stage
  is skipped as the source skips it: the download and the conversion when
  \<^verbatim>\<open>force_download\<close> is false and the file exists, the load when \<^verbatim>\<open>skip_bigquery\<close>
  is set.
\<close>

theorem process_table_by_stage:
  "(\<forall>e w1. (f \<or> \<not> exists w (path_join (raw_data_folder cfg) (get_table_filename t)))
        \<and> download_file ev (base_url cfg @ get_table_filename t)
             (path_join (raw_data_folder cfg) (get_table_filename t)) 8192
             (fold (logger INFO) (map snd (table_header t)) w) = (Inl e, w1)
      \<longrightarrow> process_table ev cfg t f s w = verdict t e w1)
   \<and> (\<forall>w1 e w2. fetch_step ev cfg t f (fold (logger INFO) (map snd (table_header t)) w)
            = (Inr (), w1)
        \<and> (f \<or> \<not> exists w1 (path_join (parquet_data_folder cfg) (get_table_id t @ ''.parquet'')))
        \<and> convert_to_parquet ev (path_join (raw_data_folder cfg) (get_table_filename t))
             (path_join (parquet_data_folder cfg) (get_table_id t @ ''.parquet'')) ''snappy'' w1
            = (Inl e, w2)
      \<longrightarrow> process_table ev cfg t f s w = verdict t e w2)
   \<and> (\<forall>w1 w2 e w3. fetch_step ev cfg t f (fold (logger INFO) (map snd (table_header t)) w)
            = (Inr (), w1)
        \<and> transform_step ev cfg t f w1 = (Inr (), w2)
        \<and> upload_to_gcs ev cfg
             (path_join (parquet_data_folder cfg) (get_table_id t @ ''.parquet''))
             (get_gcs_path t) None w2 = (Inl e, w3)
      \<longrightarrow> process_table ev cfg t f s w = verdict t e w3)
   \<and> (\<forall>w1 w2 uri w3 e w4. fetch_step ev cfg t f (fold (logger INFO) (map snd (table_header t)) w)
            = (Inr (), w1)
        \<and> transform_step ev cfg t f w1 = (Inr (), w2)
        \<and> upload_to_gcs ev cfg
             (path_join (parquet_data_folder cfg) (get_table_id t @ ''.parquet''))
             (get_gcs_path t) None w2 = (Inr uri, w3)
        \<and> \<not> s
        \<and> load_to_bigquery ev cfg uri (bronze_dataset cfg) (get_table_id t) ''WRITE_TRUNCATE''
             w3 = (Inl e, w4)
      \<longrightarrow> process_table ev cfg t f s w = verdict t e w4)
   \<and> (\<forall>w1 w2 uri w3 w4. fetch_step ev cfg t f (fold (logger INFO) (map snd (table_header t)) w)
            = (Inr (), w1)
        \<and> transform_step ev cfg t f w1 = (Inr (), w2)
        \<and> upload_to_gcs ev cfg
             (path_join (parquet_data_folder cfg) (get_table_id t @ ''.parquet''))
             (get_gcs_path t) None w2 = (Inr uri, w3)
        \<and> load_step ev cfg t s uri w3 = (Inr (), w4)
      \<longrightarrow> process_table ev cfg t f s w
            = (Inr True, logger INFO (Table (SuccessfullyProcessed t)) w4))
   \<and> (\<forall>e. fst (process_table ev cfg t f s w) = Inl e \<longrightarrow> \<not> is_Exception e)
   \<and> (config_error cfg w
        \<longrightarrow> fst (main evs cfg f s names ff c d v w) = Inr 2
            \<and> invoked (new_log w (snd (main evs cfg f s names ff c d v w))) = [])
   \<and> (\<forall>w'. fetch_step ev cfg t f w'
          = (if f \<or> \<not> exists w' (path_join (raw_data_folder cfg) (get_table_filename t))
             then download_file ev (base_url cfg @ get_table_filename t)
                    (path_join (raw_data_folder cfg) (get_table_filename t)) 8192 w'
             else (Inr (), logger INFO (Table (SkippingDownload
                    (path_join (raw_data_folder cfg) (get_table_filename t)))) w')))
   \<and> (\<forall>w'. transform_step ev cfg t f w'
          = (if f \<or> \<not> exists w'
                    (path_join (parquet_data_folder cfg) (get_table_id t @ ''.parquet''))
             then convert_to_parquet ev (path_join (raw_data_folder cfg) (get_table_filename t))
                    (path_join (parquet_data_folder cfg) (get_table_id t @ ''.parquet''))
                    ''snappy'' w'
             else (Inr (), logger INFO (Table (SkippingConversion
                    (path_join (parquet_data_folder cfg) (get_table_id t @ ''.parquet'')))) w')))
   \<and> (\<forall>uri w'. load_step ev cfg t s uri w'
          = (if \<not> s
             then load_to_bigquery ev cfg uri (bronze_dataset cfg) (get_table_id t)
                    ''WRITE_TRUNCATE'' w'
             else (Inr (), logger INFO (Table SkippingLoad) w')))"
proof -
  define w0 where "w0 = fold (logger INFO) (map snd (table_header t)) w"
  have w0: "logger INFO sep70 (logger INFO (Table (ProcessingTable t)) (logger INFO sep70 w)) = w0"
    by (simp add: w0_def table_header_def)
  have ex: "exists w0 p = exists w p" for p
    by (simp add: w0_def table_header_def exists_def)
  have pt: "process_table ev cfg t f s' w
              = (case process_body ev cfg t f s' w0 of
                   (Inl e, w') \<Rightarrow> verdict t e w'
                 | (Inr u, w') \<Rightarrow> (Inr True, w'))" for s'
    by (simp add: process_table_def w0 verdict_def Let_def split: prod.split sum.split)
  have c1: "process_table ev cfg t f s w = verdict t e w1"
    if "(f \<or> \<not> exists w (path_join (raw_data_folder cfg) (get_table_filename t)))
        \<and> download_file ev (base_url cfg @ get_table_filename t)
             (path_join (raw_data_folder cfg) (get_table_filename t)) 8192 w0 = (Inl e, w1)"
    for e w1
  proof -
    have "fetch_step ev cfg t f w0 = (Inl e, w1)"
      using that by (auto simp: fetch_step_def Let_def ex)
    then show ?thesis by (simp add: pt process_body_def)
  qed
  have c2: "process_table ev cfg t f s w = verdict t e w2"
    if "fetch_step ev cfg t f w0 = (Inr (), w1)
        \<and> (f \<or> \<not> exists w1 (path_join (parquet_data_folder cfg) (get_table_id t @ ''.parquet'')))
        \<and> convert_to_parquet ev (path_join (raw_data_folder cfg) (get_table_filename t))
             (path_join (parquet_data_folder cfg) (get_table_id t @ ''.parquet'')) ''snappy'' w1
            = (Inl e, w2)"
    for w1 e w2
  proof -
    have "transform_step ev cfg t f w1 = (Inl e, w2)"
      using that by (auto simp: transform_step_def Let_def)
    then show ?thesis using that by (simp add: pt process_body_def)
  qed
  have c3: "process_table ev cfg t f s w = verdict t e w3"
    if "fetch_step ev cfg t f w0 = (Inr (), w1)
        \<and> transform_step ev cfg t f w1 = (Inr (), w2)
        \<and> upload_to_gcs ev cfg
             (path_join (parquet_data_folder cfg) (get_table_id t @ ''.parquet''))
             (get_gcs_path t) None w2 = (Inl e, w3)"
    for w1 w2 e w3
  proof -
    have "publish_step ev cfg t w2 = (Inl e, w3)"
      using that by (simp add: publish_step_def Let_def)
    then show ?thesis using that by (simp add: pt process_body_def)
  qed
  have c4: "process_table ev cfg t f s w = verdict t e w4"
    if "fetch_step ev cfg t f w0 = (Inr (), w1)
        \<and> transform_step ev cfg t f w1 = (Inr (), w2)
        \<and> upload_to_gcs ev cfg
             (path_join (parquet_data_folder cfg) (get_table_id t @ ''.parquet''))
             (get_gcs_path t) None w2 = (Inr uri, w3)
        \<and> \<not> s
        \<and> load_to_bigquery ev cfg uri (bronze_dataset cfg) (get_table_id t) ''WRITE_TRUNCATE''
             w3 = (Inl e, w4)"
    for w1 w2 uri w3 e w4
  proof -
    have "publish_step ev cfg t w2 = (Inr uri, w3)"
      using that by (simp add: publish_step_def Let_def)
    moreover have "load_step ev cfg t s uri w3 = (Inl e, w4)"
      using that by (simp add: load_step_def)
    ultimately show ?thesis using that by (simp add: pt process_body_def)
  qed
  have c5: "process_table ev cfg t f s w
            = (Inr True, logger INFO (Table (SuccessfullyProcessed t)) w4)"
    if "fetch_step ev cfg t f w0 = (Inr (), w1)
        \<and> transform_step ev cfg t f w1 = (Inr (), w2)
        \<and> upload_to_gcs ev cfg
             (path_join (parquet_data_folder cfg) (get_table_id t @ ''.parquet''))
             (get_gcs_path t) None w2 = (Inr uri, w3)
        \<and> load_step ev cfg t s uri w3 = (Inr (), w4)"
    for w1 w2 uri w3 w4
  proof -
    have "publish_step ev cfg t w2 = (Inr uri, w3)"
      using that by (simp add: publish_step_def Let_def)
    then show ?thesis using that by (simp add: pt process_body_def)
  qed
  have c6: "\<not> is_Exception e" if "fst (process_table ev cfg t f s w) = Inl e" for e
    using that by (rule process_table_raises)
  have c7: "fst (main evs cfg f s names ff c d v w) = Inr 2
            \<and> invoked (new_log w (snd (main evs cfg f s names ff c d v w))) = []"
    if h: "config_error cfg w"
  proof -
    obtain e where e: "validate cfg w = Inl e" using h validate_iff by blast
    then have e': "validate cfg (if v then w\<lparr>debug := True\<rparr> else w) = Inl e"
      by (simp add: validate_debug)
    show ?thesis
      by (simp add: main_def Let_def e' new_log_def logger_def del: if_cancel)
  qed
  show ?thesis
    unfolding w0_def [symmetric]
    apply (intro conjI allI impI)
    subgoal for e w1 using c1 by blast
    subgoal for w1 e w2 using c2 by blast
    subgoal for w1 w2 e w3 using c3 by blast
    subgoal for w1 w2 uri w3 e w4 using c4 by blast
    subgoal for w1 w2 uri w3 w4 using c5 by blast
    subgoal for e using c6 by blast
    subgoal using c7 by blast
    subgoal using c7 by blast
    subgoal by (simp add: fetch_step_def Let_def)
    subgoal by (simp add: transform_step_def Let_def)
    subgoal by (simp add: load_step_def)
    done
qed

theorem process_table_by_stage_witness:
  "fst (process_table env_down cfg0 ''A'' False False w_start) = Inr False
   \<and> fst (process_table env_malformed cfg0 ''A'' False False w_start) = Inr False
   \<and> fst (process_table env_upload_fails cfg0 ''A'' False False w_cached) = Inr False
   \<and> fst (process_table env_race cfg0 ''A'' False False w_cached) = Inr False
   \<and> fst (process_table env_ok cfg0 ''A'' False True w_cached) = Inr True
   \<and> fst (process_table env_interrupted cfg0 ''A'' False False w_start)
       = Inl (Exn KeyboardInterrupt ''Ctrl-C'')
   \<and> fst (main (\<lambda>i. env_ok) cfg_unset False False [] False False False False w_start) = Inr 2"
proof -
  let ?h = "\<lambda>w. fold (logger INFO) (map snd (table_header ''A'')) w"
  let ?raw = "path_join (raw_data_folder cfg0) (get_table_filename ''A'')"
  let ?pq = "path_join (parquet_data_folder cfg0) (get_table_id ''A'' @ ''.parquet'')"
  let ?url = "base_url cfg0 @ get_table_filename ''A''"
  note defs = model_defs table_header_def cfg0_def w_start_def w_cached_def env_ok_def df0_def
  \<comment> \<open>the download fails\<close>
  define d1 where "d1 = snd (download_file env_down ?url ?raw 8192 (?h w_start))"
  have s1: "(False \<or> \<not> exists w_start ?raw)
       \<and> download_file env_down ?url ?raw 8192 (?h w_start)
           = (Inl (Exn RequestException ''Connection refused''), d1)"
    unfolding d1_def by (simp add: prod_eq_iff defs env_down_def)
  note t1 = process_table_by_stage [of False w_start cfg0 "''A''" env_down False,
              THEN conjunct1, rule_format, OF s1]
  \<comment> \<open>the user interrupts the download\<close>
  define i1 where "i1 = snd (download_file env_interrupted ?url ?raw 8192 (?h w_start))"
  have s1': "(False \<or> \<not> exists w_start ?raw)
       \<and> download_file env_interrupted ?url ?raw 8192 (?h w_start)
           = (Inl (Exn KeyboardInterrupt ''Ctrl-C''), i1)"
    unfolding i1_def by (simp add: prod_eq_iff defs env_interrupted_def)
  note t1' = process_table_by_stage [of False w_start cfg0 "''A''" env_interrupted False,
              THEN conjunct1, rule_format, OF s1']
  \<comment> \<open>the conversion fails\<close>
  define m1 where "m1 = snd (fetch_step env_malformed cfg0 ''A'' False (?h w_start))"
  define m2 where "m2 = snd (convert_to_parquet env_malformed ?raw ?pq ''snappy'' m1)"
  have s2: "fetch_step env_malformed cfg0 ''A'' False (?h w_start) = (Inr (), m1)
       \<and> (False \<or> \<not> exists m1 ?pq)
       \<and> convert_to_parquet env_malformed ?raw ?pq ''snappy'' m1
           = (Inl (Exn ParserError ''Error tokenizing data''), m2)"
    unfolding m2_def m1_def by (simp add: prod_eq_iff defs env_malformed_def)
  note t2 = process_table_by_stage [of False w_start cfg0 "''A''" env_malformed False,
              THEN conjunct2, THEN conjunct1, rule_format, OF s2]
  \<comment> \<open>the upload fails\<close>
  define u1 where "u1 = snd (fetch_step env_upload_fails cfg0 ''A'' False (?h w_cached))"
  define u2 where "u2 = snd (transform_step env_upload_fails cfg0 ''A'' False u1)"
  define u3 where "u3 = snd (upload_to_gcs env_upload_fails cfg0 ?pq (get_gcs_path ''A'') None u2)"
  have s3: "fetch_step env_upload_fails cfg0 ''A'' False (?h w_cached) = (Inr (), u1)
       \<and> transform_step env_upload_fails cfg0 ''A'' False u1 = (Inr (), u2)
       \<and> upload_to_gcs env_upload_fails cfg0 ?pq (get_gcs_path ''A'') None u2
           = (Inl (Exn GoogleCloudError ''503 Service Unavailable''), u3)"
    unfolding u3_def u2_def u1_def by (simp add: prod_eq_iff defs env_upload_fails_def)
  note t3 = process_table_by_stage [of False w_cached cfg0 "''A''" env_upload_fails False,
              THEN conjunct2, THEN conjunct2, THEN conjunct1, rule_format, OF s3]
  \<comment> \<open>the load fails\<close>
  define r1 where "r1 = snd (fetch_step env_race cfg0 ''A'' False (?h w_cached))"
  define r2 where "r2 = snd (transform_step env_race cfg0 ''A'' False r1)"
  define r3 where "r3 = snd (upload_to_gcs env_race cfg0 ?pq (get_gcs_path ''A'') None r2)"
  define r4 where "r4 = snd (load_to_bigquery env_race cfg0
                               ''gs://imdb-data/imdb/A/A.parquet'' (bronze_dataset cfg0)
                               (get_table_id ''A'') ''WRITE_TRUNCATE'' r3)"
  have s4: "fetch_step env_race cfg0 ''A'' False (?h w_cached) = (Inr (), r1)
       \<and> transform_step env_race cfg0 ''A'' False r1 = (Inr (), r2)
       \<and> upload_to_gcs env_race cfg0 ?pq (get_gcs_path ''A'') None r2
           = (Inr ''gs://imdb-data/imdb/A/A.parquet'', r3)
       \<and> \<not> False
       \<and> load_to_bigquery env_race cfg0 ''gs://imdb-data/imdb/A/A.parquet''
             (bronze_dataset cfg0) (get_table_id ''A'') ''WRITE_TRUNCATE'' r3
           = (Inl (Exn Conflict ''409 Already Exists''), r4)"
    unfolding r4_def r3_def r2_def r1_def by (simp add: prod_eq_iff defs env_race_def)
  note t4 = process_table_by_stage [of False w_cached cfg0 "''A''" env_race False,
              THEN conjunct2, THEN conjunct2, THEN conjunct2, THEN conjunct1, rule_format,
              OF s4]
  \<comment> \<open>every stage succeeds\<close>
  define o1 where "o1 = snd (fetch_step env_ok cfg0 ''A'' False (?h w_cached))"
  define o2 where "o2 = snd (transform_step env_ok cfg0 ''A'' False o1)"
  define o3 where "o3 = snd (upload_to_gcs env_ok cfg0 ?pq (get_gcs_path ''A'') None o2)"
  define o4 where "o4 = snd (load_step env_ok cfg0 ''A'' True
                               ''gs://imdb-data/imdb/A/A.parquet'' o3)"
  have s5: "fetch_step env_ok cfg0 ''A'' False (?h w_cached) = (Inr (), o1)
       \<and> transform_step env_ok cfg0 ''A'' False o1 = (Inr (), o2)
       \<and> upload_to_gcs env_ok cfg0 ?pq (get_gcs_path ''A'') None o2
           = (Inr ''gs://imdb-data/imdb/A/A.parquet'', o3)
       \<and> load_step env_ok cfg0 ''A'' True ''gs://imdb-data/imdb/A/A.parquet'' o3 = (Inr (), o4)"
    unfolding o4_def o3_def o2_def o1_def by (simp add: prod_eq_iff defs)
  note t5 = process_table_by_stage [of False w_cached cfg0 "''A''" env_ok True,
              THEN conjunct2, THEN conjunct2, THEN conjunct2, THEN conjunct2, THEN conjunct1,
              rule_format, OF s5]
  \<comment> \<open>the configuration is rejected\<close>
  have c: "config_error cfg_unset w_start"
    by (simp add: config_error_def cfg_unset_def cfg0_def startswith_def)
  note t7 = process_table_by_stage [of False w_start cfg_unset "''A''" env_ok False
              "\<lambda>i. env_ok" "[]" False False False False,
              THEN conjunct2, THEN conjunct2, THEN conjunct2, THEN conjunct2, THEN conjunct2,
              THEN conjunct2, THEN conjunct1, rule_format, OF c]
  show ?thesis
    using t1 t1' t2 t3 t4 t5 t7 by (simp add: verdict_def is_Exception_def)
qed



end
